theory Spec2Isabelle
  imports
    Complex_Main
    "HOL-Library.Char_ord"
    "HOL-Library.List_Lexorder"
    "HOL-Library.Log_Nat"
    "HOL-Library.Multiset"
    "HOL-Library.Sublist"
begin

section \<open>GEDI L4A extraction: the schema\<close>

text \<open>
  A shallow embedding of \<^verbatim>\<open>pipelines/gedi_extract_l4a.py\<close>. Python strings are
  \<^typ>\<open>string\<close>; their order (\<^verbatim>\<open>sorted\<close>) is the lexicographic order of the
  character codes, which is the order \<^theory_text>\<open>Char_ord\<close> and \<^theory_text>\<open>List_Lexorder\<close>
  put on \<^typ>\<open>char list\<close>.
\<close>

text \<open>The frozen dataclass \<^verbatim>\<open>GediVars\<close>: three sequences of names, each empty by default.\<close>

record GediVars =
  integer_variables :: "string list"
  float_variables :: "string list"
  string_variables :: "string list"

text \<open>\<^verbatim>\<open>sorted(itertools.chain(self.integer_variables, self.float_variables))\<close>\<close>

definition numeric_vars :: "GediVars \<Rightarrow> string list" where
  "numeric_vars g = sort (integer_variables g @ float_variables g)"

text \<open>\<^verbatim>\<open>sorted(itertools.chain(self.numeric_vars(), self.string_variables))\<close>\<close>

definition all_vars :: "GediVars \<Rightarrow> string list" where
  "all_vars g = sort (numeric_vars g @ string_variables g)"

definition gedi_vars :: GediVars where
  "gedi_vars = \<lparr>
   integer_variables = [
    ''algorithm_run_flag'', ''beam'', ''channel'', ''degrade_flag'', ''l2_quality_flag'',
    ''l4_quality_flag'', ''master_int'', ''predictor_limit_flag'', ''response_limit_flag'',
    ''selected_algorithm'', ''selected_mode'', ''selected_mode_flag'', ''surface_flag''],
   float_variables = [
    ''agbd'', ''agbd_pi_lower'', ''agbd_pi_upper'', ''agbd_se'', ''agbd_t'', ''agbd_t_se'',
    ''delta_time'', ''elev_lowestmode'', ''lat_lowestmode'', ''lon_lowestmode'',
    ''master_frac'', ''sensitivity'', ''solar_elevation''],
   string_variables = [
    ''shot_number'', ''predict_stratum'']
  \<rparr>"

definition agbd_prediction_vars :: GediVars where
  "agbd_prediction_vars = \<lparr>
   integer_variables = [
    ''algorithm_run_flag_a1'', ''algorithm_run_flag_a10'', ''algorithm_run_flag_a2'',
    ''algorithm_run_flag_a3'', ''algorithm_run_flag_a4'', ''algorithm_run_flag_a5'',
    ''algorithm_run_flag_a6'', ''l2_quality_flag_a1'', ''l2_quality_flag_a10'',
    ''l2_quality_flag_a2'', ''l2_quality_flag_a3'', ''l2_quality_flag_a4'',
    ''l2_quality_flag_a5'', ''l2_quality_flag_a6'', ''l4_quality_flag_a1'',
    ''l4_quality_flag_a10'', ''l4_quality_flag_a2'', ''l4_quality_flag_a3'',
    ''l4_quality_flag_a4'', ''l4_quality_flag_a5'', ''l4_quality_flag_a6'',
    ''predictor_limit_flag_a1'', ''predictor_limit_flag_a10'', ''predictor_limit_flag_a2'',
    ''predictor_limit_flag_a3'', ''predictor_limit_flag_a4'', ''predictor_limit_flag_a5'',
    ''predictor_limit_flag_a6'', ''response_limit_flag_a1'', ''response_limit_flag_a10'',
    ''response_limit_flag_a2'', ''response_limit_flag_a3'', ''response_limit_flag_a4'',
    ''response_limit_flag_a5'', ''response_limit_flag_a6'', ''selected_mode_a1'',
    ''selected_mode_a10'', ''selected_mode_a2'', ''selected_mode_a3'',
    ''selected_mode_a4'', ''selected_mode_a5'', ''selected_mode_a6'',
    ''selected_mode_flag_a1'', ''selected_mode_flag_a10'', ''selected_mode_flag_a2'',
    ''selected_mode_flag_a3'', ''selected_mode_flag_a4'', ''selected_mode_flag_a5'',
    ''selected_mode_flag_a6''],
   float_variables = [
    ''agbd_a1'', ''agbd_a10'', ''agbd_a2'', ''agbd_a3'', ''agbd_a4'', ''agbd_a5'',
    ''agbd_a6'', ''agbd_pi_lower_a1'', ''agbd_pi_lower_a10'', ''agbd_pi_lower_a2'',
    ''agbd_pi_lower_a3'', ''agbd_pi_lower_a4'', ''agbd_pi_lower_a5'', ''agbd_pi_lower_a6'',
    ''agbd_pi_upper_a1'', ''agbd_pi_upper_a10'', ''agbd_pi_upper_a2'',
    ''agbd_pi_upper_a3'', ''agbd_pi_upper_a4'', ''agbd_pi_upper_a5'', ''agbd_pi_upper_a6'',
    ''agbd_se_a1'', ''agbd_se_a10'', ''agbd_se_a2'', ''agbd_se_a3'', ''agbd_se_a4'',
    ''agbd_se_a5'', ''agbd_se_a6'', ''agbd_t_a1'', ''agbd_t_a10'', ''agbd_t_a2'',
    ''agbd_t_a3'', ''agbd_t_a4'', ''agbd_t_a5'', ''agbd_t_a6'', ''agbd_t_pi_lower_a1'',
    ''agbd_t_pi_lower_a10'', ''agbd_t_pi_lower_a2'', ''agbd_t_pi_lower_a3'',
    ''agbd_t_pi_lower_a4'', ''agbd_t_pi_lower_a5'', ''agbd_t_pi_lower_a6'',
    ''agbd_t_pi_upper_a1'', ''agbd_t_pi_upper_a10'', ''agbd_t_pi_upper_a2'',
    ''agbd_t_pi_upper_a3'', ''agbd_t_pi_upper_a4'', ''agbd_t_pi_upper_a5'',
    ''agbd_t_pi_upper_a6'', ''agbd_t_se_a1'', ''agbd_t_se_a10'', ''agbd_t_se_a2'',
    ''agbd_t_se_a3'', ''agbd_t_se_a4'', ''agbd_t_se_a5'', ''agbd_t_se_a6''],
   string_variables = []
  \<rparr>"

definition geolocation_vars :: GediVars where
  "geolocation_vars = \<lparr>
   integer_variables = [
    ''stale_return_flag''],
   float_variables = [
    ''elev_lowestmode_a1'', ''elev_lowestmode_a10'', ''elev_lowestmode_a2'',
    ''elev_lowestmode_a3'', ''elev_lowestmode_a4'', ''elev_lowestmode_a5'',
    ''elev_lowestmode_a6'', ''lat_lowestmode_a1'', ''lat_lowestmode_a10'',
    ''lat_lowestmode_a2'', ''lat_lowestmode_a3'', ''lat_lowestmode_a4'',
    ''lat_lowestmode_a5'', ''lat_lowestmode_a6'', ''lon_lowestmode_a1'',
    ''lon_lowestmode_a10'', ''lon_lowestmode_a2'', ''lon_lowestmode_a3'',
    ''lon_lowestmode_a4'', ''lon_lowestmode_a5'', ''lon_lowestmode_a6'',
    ''sensitivity_a1'', ''sensitivity_a10'', ''sensitivity_a2'', ''sensitivity_a3'',
    ''sensitivity_a4'', ''sensitivity_a5'', ''sensitivity_a6''],
   string_variables = []
  \<rparr>"

definition land_cover_data_vars :: GediVars where
  "land_cover_data_vars = \<lparr>
   integer_variables = [
    ''landsat_water_persistence'', ''leaf_off_doy'', ''leaf_off_flag'', ''leaf_on_cycle'',
    ''leaf_on_doy'', ''pft_class'', ''region_class'', ''urban_focal_window_size'',
    ''urban_proportion''],
   float_variables = [
    ''landsat_treecover''],
   string_variables = []
  \<rparr>"

text \<open>
  The dict \<^verbatim>\<open>group_vars\<close>; \<^verbatim>\<open>items()\<close> iterates it in insertion order, so it is an
  association list.
\<close>

definition group_vars :: "(string \<times> GediVars) list" where
  "group_vars =
    [(''agbd_prediction'', agbd_prediction_vars),
     (''geolocation'', geolocation_vars),
     (''land_cover_data'', land_cover_data_vars)]"

definition filled_vars_float :: "string list" where
  "filled_vars_float = [
    ''agbd'', ''agbd_pi_lower'', ''agbd_pi_upper'', ''agbd_se'', ''agbd_t'', ''agbd_t_se'',
    ''agbd_a1'', ''agbd_a10'', ''agbd_a2'', ''agbd_a3'', ''agbd_a4'', ''agbd_a5'',
    ''agbd_a6'', ''agbd_pi_lower_a1'', ''agbd_pi_lower_a10'', ''agbd_pi_lower_a2'',
    ''agbd_pi_lower_a3'', ''agbd_pi_lower_a4'', ''agbd_pi_lower_a5'', ''agbd_pi_lower_a6'',
    ''agbd_pi_upper_a1'', ''agbd_pi_upper_a10'', ''agbd_pi_upper_a2'',
    ''agbd_pi_upper_a3'', ''agbd_pi_upper_a4'', ''agbd_pi_upper_a5'', ''agbd_pi_upper_a6'',
    ''agbd_se_a1'', ''agbd_se_a10'', ''agbd_se_a2'', ''agbd_se_a3'', ''agbd_se_a4'',
    ''agbd_se_a5'', ''agbd_se_a6'', ''agbd_t_a1'', ''agbd_t_a10'', ''agbd_t_a2'',
    ''agbd_t_a3'', ''agbd_t_a4'', ''agbd_t_a5'', ''agbd_t_a6'', ''agbd_t_pi_lower_a1'',
    ''agbd_t_pi_lower_a10'', ''agbd_t_pi_lower_a2'', ''agbd_t_pi_lower_a3'',
    ''agbd_t_pi_lower_a4'', ''agbd_t_pi_lower_a5'', ''agbd_t_pi_lower_a6'',
    ''agbd_t_pi_upper_a1'', ''agbd_t_pi_upper_a10'', ''agbd_t_pi_upper_a2'',
    ''agbd_t_pi_upper_a3'', ''agbd_t_pi_upper_a4'', ''agbd_t_pi_upper_a5'',
    ''agbd_t_pi_upper_a6'', ''agbd_t_se_a1'', ''agbd_t_se_a10'', ''agbd_t_se_a2'',
    ''agbd_t_se_a3'', ''agbd_t_se_a4'', ''agbd_t_se_a5'', ''agbd_t_se_a6'']"

definition filled_vars_byte :: "string list" where
  "filled_vars_byte = [
    ''predictor_limit_flag'', ''predictor_limit_flag_a1'', ''predictor_limit_flag_a10'',
    ''predictor_limit_flag_a2'', ''predictor_limit_flag_a3'', ''predictor_limit_flag_a4'',
    ''predictor_limit_flag_a5'', ''predictor_limit_flag_a6'', ''response_limit_flag'',
    ''response_limit_flag_a1'', ''response_limit_flag_a10'', ''response_limit_flag_a2'',
    ''response_limit_flag_a3'', ''response_limit_flag_a4'', ''response_limit_flag_a5'',
    ''response_limit_flag_a6'']"


section \<open>Tables, the source file and the collaborators\<close>

text \<open>
  A cell of a pandas table: the missing marker (\<^verbatim>\<open>np.nan\<close>), an integer, a
  floating-point number (the real number it stands for) or a string. A column whose cells
  are all integers has an integer dtype; a column with a missing value or a
  floating-point number has not.
\<close>

datatype cell = NaN | Intg int | Flt real | Str string

text \<open>
  A \<^verbatim>\<open>DataFrame\<close> is its columns in order, each a name and its values. pandas keeps
  every column of a frame at the length of the index; the model states that as the
  predicate \<open>rectangular\<close> where a property is about rows.
\<close>

type_synonym dataframe = "(string \<times> cell list) list"

definition column_names :: "dataframe \<Rightarrow> string list" where
  "column_names df = map fst df"

definition nrows :: "dataframe \<Rightarrow> nat" where
  "nrows df = (case df of [] \<Rightarrow> 0 | c # _ \<Rightarrow> length (snd c))"

definition rectangular :: "dataframe \<Rightarrow> bool" where
  "rectangular df = list_all (\<lambda>c. length (snd c) = nrows df) df"

text \<open>Row \<open>i\<close> of a frame: the \<open>i\<close>-th value of every column, under the column's name.\<close>

definition row_at :: "dataframe \<Rightarrow> nat \<Rightarrow> (string \<times> cell) list" where
  "row_at df i = map (\<lambda>c. (fst c, snd c ! i)) df"

definition rows :: "dataframe \<Rightarrow> (string \<times> cell) list list" where
  "rows df = map (row_at df) [0..<nrows df]"

text \<open>The exceptions the script can raise, with the labels they report.\<close>

datatype error =
    KeyError "string list"
  | AttributeError string
  | AssertionError
  | OSError string

text \<open>Statements in sequence: an exception skips what follows.\<close>

definition and_then :: "error + 'a \<Rightarrow> ('a \<Rightarrow> error + 'b) \<Rightarrow> error + 'b" where
  "and_then r f = (case r of Inl e \<Rightarrow> Inl e | Inr x \<Rightarrow> f x)"

text \<open>
  An open HDF5 file: its top-level keys in the order \<^verbatim>\<open>keys()\<close> yields them, and the
  datasets it holds, by path.
\<close>

record hdf =
  hdf_keys :: "string list"
  hdf_dataset :: "string \<Rightarrow> cell list option"

definition startswith :: "string \<Rightarrow> string \<Rightarrow> bool" where
  "startswith s p = prefix p s"

definition endswith :: "string \<Rightarrow> string \<Rightarrow> bool" where
  "endswith s p = suffix p s"

text \<open>\<^verbatim>\<open>os.path.basename\<close> on POSIX: what follows the last slash.\<close>

definition basename :: "string \<Rightarrow> string" where
  "basename p = rev (takeWhile (\<lambda>c. c \<noteq> CHR ''/'') (rev p))"

text \<open>
  Modelled from the spec: \<^verbatim>\<open>gedi_lib.hdf_to_df\<close>, whose source is not part of the
  extraction script. The spec's contract: given the source handle, the beam name, the
  variable path and the target table, append a column named for the path's trailing
  segment, sourced from that exact path within that beam; a no-op on the table when the
  path does not exist in the source.
\<close>

definition hdf_to_df :: "hdf \<Rightarrow> string \<Rightarrow> string \<Rightarrow> dataframe \<Rightarrow> dataframe" where
  "hdf_to_df fh k v df =
    (case hdf_dataset fh (k @ ''/'' @ v) of
       None \<Rightarrow> df
     | Some xs \<Rightarrow> df @ [(basename v, xs)])"

text \<open>
  Modelled from the spec: \<^verbatim>\<open>gedi_lib.add_shot_number_breakdown\<close>, also outside the
  script. The spec's contract: add one or more derived columns parsed out of the
  shot-identifier column, in place, without removing or reordering existing rows or
  columns. The spec names neither the derived columns nor how they are parsed, so they
  are the parameter \<open>derived\<close>: each derived column's name and the function that parses
  its value out of a shot identifier. Reading the shot-identifier column of a table that
  has none raises, as reading any absent pandas column does.
\<close>

type_synonym breakdown = "(string \<times> (cell \<Rightarrow> cell)) list"

definition add_shot_number_breakdown :: "breakdown \<Rightarrow> dataframe \<Rightarrow> error + dataframe" where
  "add_shot_number_breakdown derived df =
    (case map_of df ''shot_number'' of
       None \<Rightarrow> Inl (KeyError [''shot_number''])
     | Some ids \<Rightarrow> Inr (df @ map (\<lambda>d. (fst d, map (snd d) ids)) derived))"

section \<open>The stages of \<^verbatim>\<open>write_csv\<close> for one beam\<close>

text \<open>
  Assembly: \<^verbatim>\<open>df = pd.DataFrame()\<close>, then one \<^verbatim>\<open>hdf_to_df\<close> per name of
  \<^verbatim>\<open>gedi_vars.all_vars()\<close>, then, for every group of \<^verbatim>\<open>group_vars.items()\<close>, one per name
  of the group's \<^verbatim>\<open>all_vars()\<close> at the path \<^verbatim>\<open>f'{group_var}/{l4a_var}'\<close>.
\<close>

definition assemble :: "hdf \<Rightarrow> string \<Rightarrow> dataframe" where
  "assemble fh k =
    foldl (\<lambda>df gv.
        foldl (\<lambda>df l4a_var. hdf_to_df fh k (fst gv @ ''/'' @ l4a_var) df) df (all_vars (snd gv)))
      (foldl (\<lambda>df v. hdf_to_df fh k v df) [] (all_vars gedi_vars))
      group_vars"

text \<open>
  \<^verbatim>\<open>replace(to_replace=s, value=np.nan)\<close> compares numbers: an integer or a
  floating-point cell equal to \<open>s\<close> matches, a string or a missing value does not.
\<close>

definition cell_equals :: "cell \<Rightarrow> int \<Rightarrow> bool" where
  "cell_equals x s = (case x of Intg i \<Rightarrow> i = s | Flt r \<Rightarrow> r = of_int s | _ \<Rightarrow> False)"

definition integer_column :: "cell list \<Rightarrow> bool" where
  "integer_column xs = list_all (\<lambda>x. case x of Intg i \<Rightarrow> True | _ \<Rightarrow> False) xs"

text \<open>
  The conversion of an integer to \<^verbatim>\<open>float64\<close>: the nearest number with a significand of
  53 bits, ties to the even significand. (The integers of an HDF5 dataset have at most 64
  bits, far from the overflow of the exponent, which is not modelled.)
\<close>

definition float64_of_int :: "int \<Rightarrow> real" where
  "float64_of_int i =
    (let n = nat \<bar>i\<bar>;
         e = floorlog 2 n - 53;
         q = n div 2 ^ e;
         r = n mod 2 ^ e;
         q' = (if 2 * r > 2 ^ e \<or> (2 * r = 2 ^ e \<and> odd q) then q + 1 else q)
     in of_int (sgn i) * real (q' * 2 ^ e))"

definition to_float64 :: "cell \<Rightarrow> cell" where
  "to_float64 x = (case x of Intg i \<Rightarrow> Flt (float64_of_int i) | _ \<Rightarrow> x)"

text \<open>
  The replacement in one column. A column without a match is returned as it is. In a
  column with a match the matching cells become the missing marker; an integer column
  cannot hold that marker, so pandas converts it to \<^verbatim>\<open>float64\<close>, its other
  integers with it.
\<close>

definition replace_values :: "int \<Rightarrow> cell list \<Rightarrow> cell list" where
  "replace_values s xs =
    (if list_ex (\<lambda>x. cell_equals x s) xs
     then map (\<lambda>x. if cell_equals x s then NaN
                    else if integer_column xs then to_float64 x else x) xs
     else xs)"

text \<open>
  \<^verbatim>\<open>df[cols] = df.loc[:, cols].replace(to_replace=s, value=np.nan)\<close>: selecting labels that
  are not all columns of the frame raises \<^verbatim>\<open>KeyError\<close> with the absent ones; otherwise
  the values of every column of \<open>cols\<close> are replaced, column by column.
\<close>

definition replace_sentinel :: "string list \<Rightarrow> int \<Rightarrow> dataframe \<Rightarrow> error + dataframe" where
  "replace_sentinel cols s df =
    (let absent = filter (\<lambda>c. c \<notin> set (column_names df)) cols in
     if absent \<noteq> [] then Inl (KeyError absent)
     else Inr (map (\<lambda>c. if fst c \<in> set cols
                         then (fst c, replace_values s (snd c))
                         else c) df))"

definition sentinel_clean :: "dataframe \<Rightarrow> error + dataframe" where
  "sentinel_clean df =
    and_then (replace_sentinel filled_vars_float (- 9999) df)
      (replace_sentinel filled_vars_byte 255)"

definition notnull :: "cell \<Rightarrow> bool" where
  "notnull x = (x \<noteq> NaN)"

text \<open>Indexing by a boolean mask keeps the positions where the mask is true.\<close>

definition mask_select :: "bool list \<Rightarrow> 'a list \<Rightarrow> 'a list" where
  "mask_select m xs = map snd (filter fst (zip m xs))"

text \<open>
  \<^verbatim>\<open>df = df[df.<name>.notnull()]\<close>: the attribute access raises when the frame has no such
  column.
\<close>

definition filter_notnull :: "string \<Rightarrow> dataframe \<Rightarrow> error + dataframe" where
  "filter_notnull name df =
    (case map_of df name of
       None \<Rightarrow> Inl (AttributeError name)
     | Some xs \<Rightarrow> Inr (map (\<lambda>c. (fst c, mask_select (map notnull xs) (snd c))) df))"

definition filter_rows :: "dataframe \<Rightarrow> error + dataframe" where
  "filter_rows df =
    and_then (filter_notnull ''lat_lowestmode'' df) (filter_notnull ''lon_lowestmode'')"

text \<open>The body of the loop up to \<^verbatim>\<open>to_csv\<close>: assemble, clean, filter, augment.\<close>

definition beam_table :: "breakdown \<Rightarrow> hdf \<Rightarrow> string \<Rightarrow> error + dataframe" where
  "beam_table derived fh k =
    and_then (and_then (sentinel_clean (assemble fh k)) filter_rows)
      (add_shot_number_breakdown derived)"

section \<open>The driver\<close>

text \<open>
  The CSV file as its lines: a header row of column names or a data row of values. (The
  text of a value, \<^verbatim>\<open>float_format\<close> included, is pandas' and is not modelled.)
\<close>

datatype csv_line = Header "string list" | Data "cell list"

definition to_csv :: "dataframe \<Rightarrow> bool \<Rightarrow> csv_line list" where
  "to_csv df header =
    (if header then [Header (column_names df)] else []) @ map (\<lambda>r. Data (map snd r)) (rows df)"

text \<open>What \<^verbatim>\<open>write_csv\<close> writes to: the CSV file handle and the standard output.\<close>

record sink =
  csv_lines :: "csv_line list"
  printed :: "string list"

text \<open>
  The loop of \<^verbatim>\<open>write_csv\<close> over the keys, with the flag \<^verbatim>\<open>is_first\<close>. An exception
  leaves what was written so far and ends the loop.
\<close>

fun write_csv_loop ::
  "breakdown \<Rightarrow> hdf \<Rightarrow> string list \<Rightarrow> bool \<Rightarrow> sink \<Rightarrow> sink \<times> error option" where
  "write_csv_loop derived fh [] is_first out = (out, None)"
| "write_csv_loop derived fh (k # ks) is_first out =
    (if \<not> startswith k ''BEAM'' then write_csv_loop derived fh ks is_first out
     else
       let out1 = out\<lparr>printed := printed out @ [[CHR 0x09, CHR '' ''] @ k]\<rparr> in
       case beam_table derived fh k of
         Inl e \<Rightarrow> (out1, Some e)
       | Inr df \<Rightarrow>
           write_csv_loop derived fh ks False
             (out1\<lparr>csv_lines := csv_lines out1 @ to_csv df is_first\<rparr>))"

definition write_csv :: "breakdown \<Rightarrow> hdf \<Rightarrow> sink \<Rightarrow> sink \<times> error option" where
  "write_csv derived l4a_hdf_fh csv_file = write_csv_loop derived l4a_hdf_fh (hdf_keys l4a_hdf_fh) True csv_file"

text \<open>
  The file system and the log around \<^verbatim>\<open>extract_values\<close>: the HDF5 files that can be
  opened for reading, the paths that can be opened for writing, the text files and their
  lines, the error log and the standard output.
\<close>

record world =
  h5_files :: "string \<Rightarrow> hdf option"
  writable :: "string \<Rightarrow> bool"
  text_files :: "string \<Rightarrow> csv_line list option"
  error_log :: "string list"
  console :: "string list"

text \<open>
  \<^verbatim>\<open>extract_values\<close>: the assertion, the guard on the basename, then the source opened for
  reading, the destination opened with mode \<^verbatim>\<open>'w'\<close> (created or truncated) and
  \<^verbatim>\<open>write_csv\<close> run on the two. Both files are closed on every exit, so the destination
  holds what was written when an exception ends the run.
\<close>

definition extract_values :: "breakdown \<Rightarrow> string list \<Rightarrow> string \<Rightarrow> world \<Rightarrow> world \<times> error option" where
  "extract_values derived input_paths output_path w =
    (if length input_paths \<noteq> 1 then (w, Some AssertionError)
     else
       let l4a_path = hd input_paths;
           base = basename l4a_path
       in
       if \<not> startswith base ''GEDI'' \<or> \<not> endswith base ''.h5''
       then (w\<lparr>error_log := error_log w @ [''Input path is not a GEDI filename: '' @ l4a_path]\<rparr>, None)
       else
         case h5_files w l4a_path of
           None \<Rightarrow> (w, Some (OSError l4a_path))
         | Some l4a_hdf_fh \<Rightarrow>
             if \<not> writable w output_path then (w, Some (OSError output_path))
             else
               let res = write_csv derived l4a_hdf_fh \<lparr>csv_lines = [], printed = console w\<rparr> in
               (w\<lparr>text_files := (text_files w)(output_path \<mapsto> csv_lines (fst res)),
                   console := printed (fst res)\<rparr>,
                snd res))"

section \<open>Notions the properties are stated with\<close>

text \<open>Every schema instance the script declares.\<close>

definition schemas :: "GediVars list" where
  "schemas = gedi_vars # map snd group_vars"

text \<open>A row holds a value under a name: the column exists and the value is not missing.\<close>

definition holds_value :: "(string \<times> cell) list \<Rightarrow> string \<Rightarrow> bool" where
  "holds_value r name = (case map_of r name of None \<Rightarrow> False | Some v \<Rightarrow> notnull v)"

text \<open>The first value and the rest of every column.\<close>

definition heads :: "dataframe \<Rightarrow> (string \<times> cell) list" where
  "heads df = map (\<lambda>c. (fst c, hd (snd c))) df"

definition tails :: "dataframe \<Rightarrow> dataframe" where
  "tails df = map (\<lambda>c. (fst c, tl (snd c))) df"

text \<open>The keys \<^verbatim>\<open>write_csv\<close> processes, and the data rows \<^verbatim>\<open>to_csv\<close> writes for a table.\<close>

definition beam_keys :: "hdf \<Rightarrow> string list" where
  "beam_keys fh = filter (\<lambda>k. startswith k ''BEAM'') (hdf_keys fh)"

definition data_lines :: "dataframe \<Rightarrow> csv_line list" where
  "data_lines df = map (\<lambda>r. Data (map snd r)) (rows df)"

fun is_header :: "csv_line \<Rightarrow> bool" where
  "is_header (Header names) = True"
| "is_header (Data values) = False"

text \<open>
  The paths \<^verbatim>\<open>write_csv\<close> fetches for a beam, in the order of the fetches, and what one
  fetch adds to the table.
\<close>

definition schema_paths :: "string list" where
  "schema_paths =
    all_vars gedi_vars
    @ concat (map (\<lambda>gv. map (\<lambda>l4a_var. fst gv @ ''/'' @ l4a_var) (all_vars (snd gv))) group_vars)"

definition fetch :: "hdf \<Rightarrow> string \<Rightarrow> string \<Rightarrow> dataframe" where
  "fetch fh k p =
    (case hdf_dataset fh (k @ ''/'' @ p) of None \<Rightarrow> [] | Some xs \<Rightarrow> [(basename p, xs)])"

text \<open>The three columns of a row that scenario A is about.\<close>

definition coordinates_and_agbd :: "(string \<times> cell) list \<Rightarrow> cell option \<times> cell option \<times> cell option" where
  "coordinates_and_agbd r =
    (map_of r ''lat_lowestmode'', map_of r ''lon_lowestmode'', map_of r ''agbd'')"

section \<open>Concrete inputs\<close>

text \<open>A schema instance that repeats a name inside one of its sequences.\<close>

definition dup_schema :: GediVars where
  "dup_schema =
    \<lparr>integer_variables = [''beam'', ''beam''], float_variables = [''agbd''], string_variables = []\<rparr>"

text \<open>
  A table with every column of the two fill lists and a coordinate column: the float
  columns and the coordinate column hold the integer sentinel, 255 and 254; the flag
  columns are integer columns holding the byte sentinel, 254 and 0.
\<close>

definition flag_frame :: dataframe where
  "flag_frame =
    map (\<lambda>n. (n, [Flt (- 9999), Flt 255, Flt 254])) filled_vars_float
    @ map (\<lambda>n. (n, [Intg 255, Intg 254, Intg 0])) filled_vars_byte
    @ [(''lat_lowestmode'', [Flt (- 9999), Flt 255, Flt 254])]"

text \<open>
  A table in which the columns of the float fill list are integer columns holding the
  integer sentinel and an integer that \<^verbatim>\<open>float64\<close> cannot represent, and a table
  with the two coordinate columns alone.
\<close>

definition big_int_frame :: dataframe where
  "big_int_frame =
    map (\<lambda>n. (n, [Intg (- 9999), Intg 9007199254740993])) filled_vars_float
    @ map (\<lambda>n. (n, [Intg 0, Intg 1])) filled_vars_byte"

definition coordinates_frame :: dataframe where
  "coordinates_frame = [(''lat_lowestmode'', [Flt 12.5]), (''lon_lowestmode'', [Flt 45])]"

text \<open>A table of three shots: the second lacks its latitude, the third its longitude.\<close>

definition coord_frame :: dataframe where
  "coord_frame =
    [(''lat_lowestmode'', [Flt 12.5, NaN, Flt 3]),
     (''lon_lowestmode'', [Flt 45, Flt 45, NaN]),
     (''agbd'', [Flt 100, Flt 1, Flt 2])]"

text \<open>A source file with no beam group, and one whose only beam group holds no dataset.\<close>

definition no_beam_source :: hdf where
  "no_beam_source = \<lparr>hdf_keys = [''ANCILLARY'', ''METADATA''], hdf_dataset = (\<lambda>p. None)\<rparr>"

definition bare_beam_source :: hdf where
  "bare_beam_source = \<lparr>hdf_keys = [''BEAM0000''], hdf_dataset = (\<lambda>p. None)\<rparr>"


text \<open>
  A breakdown with one derived column, and a file system in which the destination
  already holds a line from an earlier run.
\<close>

definition sample_breakdown :: breakdown where
  "sample_breakdown = [(''shot_number_copy'', \<lambda>x. x)]"

definition stale_world :: world where
  "stale_world =
    \<lparr>h5_files = (\<lambda>p. if p = ''/data/GEDI04_A.h5'' then Some no_beam_source else None),
     writable = (\<lambda>p. True),
     text_files = (\<lambda>p. if p = ''out.csv'' then Some [Header [''stale'']] else None),
     error_log = [],
     console = []\<rparr>"

text \<open>The datasets of one beam group: a value list for each of the given paths.\<close>

definition beam_group :: "string \<Rightarrow> string list \<Rightarrow> (string \<Rightarrow> cell list) \<Rightarrow> (string \<times> cell list) list" where
  "beam_group k ps f = map (\<lambda>p. (k @ ''/'' @ p, f p)) ps"

text \<open>
  A source with one beam of two shots that holds every dataset of the schema but
  \<open>agbd_se\<close>.
\<close>

definition sparse_source :: hdf where
  "sparse_source =
    \<lparr>hdf_keys = [''BEAM0000''],
     hdf_dataset =
       map_of (beam_group ''BEAM0000'' (removeAll ''agbd_se'' schema_paths) (\<lambda>p. [Flt 1, Flt 2]))\<rparr>"

text \<open>
  Scenario A: one beam of two shots holding every dataset of the schema; the second shot
  has the integer sentinel as its latitude and as its \<open>agbd\<close>.
\<close>

definition scenario_A_values :: "string \<Rightarrow> cell list" where
  "scenario_A_values p =
    (if p = ''lat_lowestmode'' then [Flt 12.5, Flt (- 9999)]
     else if p = ''lon_lowestmode'' then [Flt 45, Flt 45]
     else if p = ''agbd'' then [Flt 100, Flt (- 9999)]
     else [Flt 0, Flt 0])"

definition scenario_A :: hdf where
  "scenario_A =
    \<lparr>hdf_keys = [''BEAM0000''],
     hdf_dataset = map_of (beam_group ''BEAM0000'' schema_paths scenario_A_values)\<rparr>"

text \<open>
  A source with two beam groups: the first holds every dataset of the schema for two
  shots, the second holds none.
\<close>

definition second_beam_bare_source :: hdf where
  "second_beam_bare_source =
    \<lparr>hdf_keys = [''BEAM0000'', ''BEAM0001''],
     hdf_dataset = map_of (beam_group ''BEAM0000'' schema_paths (\<lambda>p. [Flt 1, Flt 2]))\<rparr>"

text \<open>
  Scenario B: two beam groups among other keys, each holding every dataset of the schema,
  the first for two shots and the second for one.
\<close>

definition two_beam_source :: hdf where
  "two_beam_source =
    \<lparr>hdf_keys = [''ANCILLARY'', ''BEAM0000'', ''BEAM0001'', ''METADATA''],
     hdf_dataset =
       map_of (beam_group ''BEAM0000'' schema_paths (\<lambda>p. [Flt 1, Flt 2])
         @ beam_group ''BEAM0001'' schema_paths (\<lambda>p. [Flt 3]))\<rparr>"

section \<open>Properties of the schema registry\<close>

lemma sort_sort_append: "sort (sort xs @ ys) = sort (xs @ (ys::'a::linorder list))"
  by (rule properties_for_sort) simp_all

lemma all_vars_sort:
  "all_vars g = sort (integer_variables g @ float_variables g @ string_variables g)"
  by (simp add: all_vars_def numeric_vars_def sort_sort_append)

lemma sort_distinct_set:
  "distinct xs \<Longrightarrow> sort xs = sorted_list_of_set (set (xs::'a::linorder list))"
  by (simp add: sorted_list_of_set_sort_remdups distinct_remdups_id)

lemma set_all_vars:
  "set (all_vars g) =
    set (integer_variables g) \<union> set (float_variables g) \<union> set (string_variables g)"
  by (auto simp: all_vars_sort)

text \<open>
  C8 (as amended). \<^verbatim>\<open>sorted\<close> keeps repeated elements, so the schema's three sequences
  must each be free of repetitions as well as pairwise disjoint. For every such schema
  instance \<open>all_vars\<close> is the sorted list of the union of the three name sets, without
  duplicates, in the lexicographic order of strings; \<open>numeric_vars\<close> is the sorted list of
  the union of the integer and float name sets. (Both are functions of the instance alone,
  so two calls give the same sequence.)
\<close>

theorem all_vars_sorted_union:
  assumes "distinct (integer_variables g)"
    and "distinct (float_variables g)"
    and "distinct (string_variables g)"
    and "set (integer_variables g) \<inter> set (float_variables g) = {}"
    and "set (integer_variables g) \<inter> set (string_variables g) = {}"
    and "set (float_variables g) \<inter> set (string_variables g) = {}"
  shows "all_vars g =
      sorted_list_of_set
        (set (integer_variables g) \<union> set (float_variables g) \<union> set (string_variables g))
    \<and> distinct (all_vars g) \<and> sorted (all_vars g)
    \<and> numeric_vars g =
      sorted_list_of_set (set (integer_variables g) \<union> set (float_variables g))
    \<and> distinct (numeric_vars g) \<and> sorted (numeric_vars g)"
proof -
  have d: "distinct (integer_variables g @ float_variables g @ string_variables g)"
    using assms by auto
  have d2: "distinct (integer_variables g @ float_variables g)"
    using assms by auto
  have "all_vars g =
      sorted_list_of_set (set (integer_variables g @ float_variables g @ string_variables g))"
    unfolding all_vars_sort by (rule sort_distinct_set [OF d])
  moreover have "numeric_vars g =
      sorted_list_of_set (set (integer_variables g @ float_variables g))"
    unfolding numeric_vars_def by (rule sort_distinct_set [OF d2])
  moreover have "distinct (all_vars g)"
    using d by (simp add: all_vars_sort del: distinct_append)
  moreover have "distinct (numeric_vars g)"
    using d2 by (simp add: numeric_vars_def del: distinct_append)
  ultimately show ?thesis
    by (simp add: Un_assoc all_vars_def numeric_vars_def)
qed

theorem all_vars_sorted_union_witness:
  "all_vars land_cover_data_vars =
      sorted_list_of_set
        (set (integer_variables land_cover_data_vars) \<union> set (float_variables land_cover_data_vars)
          \<union> set (string_variables land_cover_data_vars))
    \<and> distinct (all_vars land_cover_data_vars) \<and> sorted (all_vars land_cover_data_vars)
    \<and> numeric_vars land_cover_data_vars =
      sorted_list_of_set (set (integer_variables land_cover_data_vars) \<union> set (float_variables land_cover_data_vars))
    \<and> distinct (numeric_vars land_cover_data_vars) \<and> sorted (numeric_vars land_cover_data_vars)"
proof (rule all_vars_sorted_union)
  show "distinct (integer_variables land_cover_data_vars)" by (simp add: land_cover_data_vars_def)
  show "distinct (float_variables land_cover_data_vars)" by (simp add: land_cover_data_vars_def)
  show "distinct (string_variables land_cover_data_vars)" by (simp add: land_cover_data_vars_def)
  show "set (integer_variables land_cover_data_vars) \<inter> set (float_variables land_cover_data_vars) = {}"
    by (simp add: land_cover_data_vars_def)
  show "set (integer_variables land_cover_data_vars) \<inter> set (string_variables land_cover_data_vars) = {}"
    by (simp add: land_cover_data_vars_def)
  show "set (float_variables land_cover_data_vars) \<inter> set (string_variables land_cover_data_vars) = {}"
    by (simp add: land_cover_data_vars_def)
qed

text \<open>
  C8 as stated fails: the name sets of \<open>dup_schema\<close> are pairwise disjoint, but its integer
  sequence repeats a name, and \<open>all_vars\<close> repeats it too.
\<close>

theorem all_vars_repeats_counterexample:
  "set (integer_variables dup_schema) \<inter> set (float_variables dup_schema) = {}
   \<and> set (integer_variables dup_schema) \<inter> set (string_variables dup_schema) = {}
   \<and> set (float_variables dup_schema) \<inter> set (string_variables dup_schema) = {}
   \<and> all_vars dup_schema = [''agbd'', ''beam'', ''beam'']
   \<and> \<not> distinct (all_vars dup_schema)
   \<and> all_vars dup_schema \<noteq>
      sorted_list_of_set
        (set (integer_variables dup_schema) \<union> set (float_variables dup_schema)
          \<union> set (string_variables dup_schema))"
proof -
  have a: "all_vars dup_schema = [''agbd'', ''beam'', ''beam'']"
    by (simp add: all_vars_def numeric_vars_def dup_schema_def)
  have "all_vars dup_schema \<noteq>
      sorted_list_of_set
        (set (integer_variables dup_schema) \<union> set (float_variables dup_schema)
          \<union> set (string_variables dup_schema))"
  proof
    assume e: "all_vars dup_schema =
      sorted_list_of_set
        (set (integer_variables dup_schema) \<union> set (float_variables dup_schema)
          \<union> set (string_variables dup_schema))"
    have "distinct (all_vars dup_schema)" unfolding e by simp
    then show False unfolding a by simp
  qed
  then show ?thesis unfolding a by (simp add: dup_schema_def)
qed

text \<open>
  The fill lists, read off the schema: the float list is the first six float variables of
  \<open>gedi_vars\<close> followed by the float variables of the prediction group; the byte list is
  made of four runs of integer variables.
\<close>

lemma filled_vars_float_eq:
  "filled_vars_float = take 6 (float_variables gedi_vars) @ float_variables agbd_prediction_vars"
  by (simp add: filled_vars_float_def gedi_vars_def agbd_prediction_vars_def)

lemma filled_vars_byte_eq:
  "filled_vars_byte =
    take 1 (drop 7 (integer_variables gedi_vars))
    @ take 7 (drop 21 (integer_variables agbd_prediction_vars))
    @ take 1 (drop 8 (integer_variables gedi_vars))
    @ take 7 (drop 28 (integer_variables agbd_prediction_vars))"
  by (simp add: filled_vars_byte_def gedi_vars_def agbd_prediction_vars_def)

lemma filled_float_in_schema:
  "set filled_vars_float
    \<subseteq> set (float_variables gedi_vars) \<union> set (float_variables agbd_prediction_vars)"
  unfolding filled_vars_float_eq
  using set_take_subset [of 6 "float_variables gedi_vars"] by auto

lemma filled_byte_in_schema:
  "set filled_vars_byte
    \<subseteq> set (integer_variables gedi_vars) \<union> set (integer_variables agbd_prediction_vars)"
  unfolding filled_vars_byte_eq set_append
  by (meson Un_mono Un_least Un_upper1 Un_upper2 set_take_subset set_drop_subset subset_trans)

text \<open>
  C9. Every name of \<open>filled_vars_float\<close> is a float variable of some declared schema
  instance (\<open>gedi_vars\<close> or a schema of \<open>group_vars\<close>), and every name of
  \<open>filled_vars_byte\<close> is an integer variable of some declared schema instance.
\<close>

theorem fill_lists_in_schema:
  "(\<forall>n \<in> set filled_vars_float. \<exists>g \<in> set schemas. n \<in> set (float_variables g))
   \<and> (\<forall>n \<in> set filled_vars_byte. \<exists>g \<in> set schemas. n \<in> set (integer_variables g))"
proof (intro conjI ballI)
  fix n assume "n \<in> set filled_vars_float"
  with filled_float_in_schema
  have "n \<in> set (float_variables gedi_vars) \<or> n \<in> set (float_variables agbd_prediction_vars)"
    by auto
  then show "\<exists>g \<in> set schemas. n \<in> set (float_variables g)"
    by (auto simp: schemas_def group_vars_def)
next
  fix n assume "n \<in> set filled_vars_byte"
  with filled_byte_in_schema
  have "n \<in> set (integer_variables gedi_vars) \<or> n \<in> set (integer_variables agbd_prediction_vars)"
    by auto
  then show "\<exists>g \<in> set schemas. n \<in> set (integer_variables g)"
    by (auto simp: schemas_def group_vars_def)
qed

theorem fill_lists_in_schema_witness:
  "''agbd_t_se_a6'' \<in> set filled_vars_float
   \<and> (\<exists>g \<in> set schemas. ''agbd_t_se_a6'' \<in> set (float_variables g))
   \<and> ''response_limit_flag'' \<in> set filled_vars_byte
   \<and> (\<exists>g \<in> set schemas. ''response_limit_flag'' \<in> set (integer_variables g))"
proof -
  have f: "''agbd_t_se_a6'' \<in> set filled_vars_float"
    by (simp add: filled_vars_float_def)
  have b: "''response_limit_flag'' \<in> set filled_vars_byte"
    by (simp add: filled_vars_byte_def)
  from fill_lists_in_schema f b show ?thesis by blast
qed

section \<open>Properties of the sentinel cleaner\<close>

lemma column_names_map_fst [simp]:
  "column_names (map (\<lambda>c. (fst c, f c)) df) = column_names df"
  by (simp add: column_names_def comp_def)

lemma nrows_map_cols:
  "(\<And>c. length (f c) = length (snd c)) \<Longrightarrow> nrows (map (\<lambda>c. (fst c, f c)) df) = nrows df"
  by (cases df) (simp_all add: nrows_def)

lemma float64_of_int_exact:
  assumes "\<bar>i\<bar> \<le> 2 ^ 53"
  shows "float64_of_int i = of_int i"
proof (cases "nat \<bar>i\<bar> < 2 ^ 53")
  case True
  then have "floorlog 2 (nat \<bar>i\<bar>) \<le> 53"
    by (simp add: floorlog_le_iff)
  then have "floorlog 2 (nat \<bar>i\<bar>) - 53 = 0" by simp
  then have "float64_of_int i = of_int (sgn i) * real (nat \<bar>i\<bar>)"
    by (simp add: float64_of_int_def Let_def)
  also have "\<dots> = of_int (sgn i * \<bar>i\<bar>)" by simp
  also have "\<dots> = of_int i" by (simp add: mult_sgn_abs)
  finally show ?thesis .
next
  case False
  have "nat \<bar>i\<bar> \<le> 2 ^ 53" using assms by (simp add: nat_le_iff)
  with False have n: "nat \<bar>i\<bar> = 2 ^ 53" by simp
  have "floorlog 2 (1 * 2 ^ 53) = floorlog 2 1 + 53"
    by (rule floorlog_power) simp_all
  moreover have "floorlog 2 1 = 1" by (simp add: compute_floorlog)
  ultimately have l: "floorlog 2 (2 ^ 53) - 53 = 1" by simp
  have "float64_of_int i = of_int (sgn i) * real (2 ^ 53)"
    unfolding float64_of_int_def Let_def n l by simp
  then have "float64_of_int i = of_int (sgn i) * real (nat \<bar>i\<bar>)"
    unfolding n .
  also have "\<dots> = of_int (sgn i * \<bar>i\<bar>)" by simp
  also have "\<dots> = of_int i" by (simp add: mult_sgn_abs)
  finally show ?thesis .
qed

lemma float64_of_int_large:
  assumes "2 ^ 53 < \<bar>i\<bar>"
  shows "2 ^ 53 \<le> \<bar>float64_of_int i\<bar>"
proof -
  define n where "n = nat \<bar>i\<bar>"
  define e where "e = floorlog 2 n - 53"
  define q where "q = n div 2 ^ e"
  define q' where "q' = (if 2 * (n mod 2 ^ e) > 2 ^ e \<or> (2 * (n mod 2 ^ e) = 2 ^ e \<and> odd q) then q + 1 else q)"
  have n: "2 ^ 53 < n" using assms by (simp add: n_def)
  then have "Suc 53 \<le> floorlog 2 n" by (intro floorlog_ge_SucI) simp_all
  then have L: "floorlog 2 n = e + 53" and e: "1 \<le> e" by (simp_all add: e_def)
  have "2 ^ (floorlog 2 n - 1) \<le> n" using floorlog_bounds [of n 2] n by simp
  then have "2 ^ (52 + e) \<le> n" by (simp add: L add.commute)
  then have "2 ^ 52 * 2 ^ e \<le> n" by (simp add: power_add)
  then have "2 ^ 52 \<le> q" unfolding q_def by (simp add: less_eq_div_iff_mult_less_eq)
  then have "2 ^ 52 \<le> q'" by (simp add: q'_def)
  moreover have "(2::nat) ^ 1 \<le> 2 ^ e" using e by (intro power_increasing) simp_all
  ultimately have "2 ^ 52 * 2 ^ 1 \<le> q' * 2 ^ e" by (rule mult_le_mono)
  then have "real (2 ^ 52 * 2 ^ 1) \<le> real (q' * 2 ^ e)" by (rule of_nat_mono)
  moreover have "real (2 ^ 52 * 2 ^ 1) = 2 ^ 53" by simp
  ultimately have "(2::real) ^ 53 \<le> real (q' * 2 ^ e)" by simp
  moreover have "\<bar>float64_of_int i\<bar> = real (q' * 2 ^ e)"
  proof -
    have "i \<noteq> 0" using assms by auto
    then have "\<bar>of_int (sgn i) :: real\<bar> = 1" by (simp add: sgn_if)
    then show ?thesis
      unfolding float64_of_int_def Let_def q'_def q_def e_def n_def abs_mult by simp
  qed
  ultimately show ?thesis by simp
qed

lemma length_replace_values [simp]: "length (replace_values s xs) = length xs"
  by (simp add: replace_values_def)

lemma cell_equals_simps [simp]:
  "cell_equals NaN s = False"
  "cell_equals (Str t) s = False"
  "cell_equals (Intg i) s = (i = s)"
  "cell_equals (Flt r) s = (r = of_int s)"
  by (simp_all add: cell_equals_def)

lemma to_float64_simps [simp]:
  "to_float64 NaN = NaN"
  "to_float64 (Str t) = Str t"
  "to_float64 (Flt r) = Flt r"
  "to_float64 (Intg i) = Flt (float64_of_int i)"
  by (simp_all add: to_float64_def)

lemma to_float64_exact: "\<bar>i\<bar> \<le> 2 ^ 53 \<Longrightarrow> to_float64 (Intg i) = Flt (of_int i)"
  by (simp add: float64_of_int_exact)

lemma to_float64_not_sentinel:
  assumes "\<bar>s\<bar> < 2 ^ 53" and "\<not> cell_equals x s"
  shows "\<not> cell_equals (to_float64 x) s"
proof (cases x)
  case (Intg i)
  show ?thesis
  proof (cases "\<bar>i\<bar> \<le> 2 ^ 53")
    case True
    then show ?thesis using assms(2) Intg by (simp add: float64_of_int_exact)
  next
    case False
    then have "2 ^ 53 \<le> \<bar>float64_of_int i\<bar>" by (intro float64_of_int_large) simp
    moreover have "\<bar>of_int s :: real\<bar> < 2 ^ 53"
    proof -
      have "\<bar>of_int s :: real\<bar> = of_int \<bar>s\<bar>" by simp
      also have "\<dots> < of_int (2 ^ 53)" using assms(1) by (simp only: of_int_less_iff)
      finally show ?thesis by simp
    qed
    ultimately have "float64_of_int i \<noteq> of_int s" by auto
    then show ?thesis using Intg by simp
  qed
qed (use assms(2) in simp_all)

lemma replace_values_no_sentinel:
  assumes "\<bar>s\<bar> < 2 ^ 53"
  shows "\<not> list_ex (\<lambda>x. cell_equals x s) (replace_values s xs)"
proof (cases "list_ex (\<lambda>x. cell_equals x s) xs")
  case False
  then show ?thesis by (simp add: replace_values_def)
next
  case True
  define f where "f = (\<lambda>x. if cell_equals x s then NaN else if integer_column xs then to_float64 x else x)"
  have nf: "\<not> cell_equals (f x) s" for x
    unfolding f_def using to_float64_not_sentinel [OF assms, of x] by simp
  have "replace_values s xs = map f xs"
    using True by (simp add: replace_values_def f_def)
  then show ?thesis using nf by (simp add: list_ex_iff)
qed

lemma replace_values_idempotent:
  "\<bar>s\<bar> < 2 ^ 53 \<Longrightarrow> replace_values s (replace_values s xs) = replace_values s xs"
  using replace_values_no_sentinel [of s xs] by (subst replace_values_def) simp

lemma replace_sentinel_eq:
  "replace_sentinel cols s df =
    (if set cols \<subseteq> set (column_names df)
     then Inr (map (\<lambda>c. (fst c, if fst c \<in> set cols then replace_values s (snd c) else snd c)) df)
     else Inl (KeyError (filter (\<lambda>c. c \<notin> set (column_names df)) cols)))"
proof -
  have "(filter (\<lambda>c. c \<notin> set (column_names df)) cols = []) = (set cols \<subseteq> set (column_names df))"
    by (auto simp: filter_empty_conv)
  moreover have "(\<lambda>c. if fst c \<in> set cols then (fst c, replace_values s (snd c)) else c)
    = (\<lambda>c::string \<times> cell list. (fst c, if fst c \<in> set cols then replace_values s (snd c) else snd c))"
    by (rule ext) simp
  ultimately show ?thesis
    by (simp add: replace_sentinel_def Let_def)
qed

lemma filled_vars_float_hd: "n \<in> set filled_vars_float \<Longrightarrow> hd n = CHR ''a''"
  by (auto simp: filled_vars_float_def)

lemma filled_vars_byte_hd: "n \<in> set filled_vars_byte \<Longrightarrow> hd n \<noteq> CHR ''a''"
  by (auto simp: filled_vars_byte_def)

lemma fill_lists_disjoint: "n \<in> set filled_vars_float \<Longrightarrow> n \<notin> set filled_vars_byte"
  using filled_vars_float_hd filled_vars_byte_hd by blast

text \<open>
  The two replacements as one pass: no column is on both lists, so each column is
  rewritten at most once.
\<close>

lemma sentinel_clean_eq:
  "sentinel_clean df =
    (if set filled_vars_float \<subseteq> set (column_names df)
     then if set filled_vars_byte \<subseteq> set (column_names df)
       then Inr (map (\<lambda>c. (fst c,
              if fst c \<in> set filled_vars_float then replace_values (- 9999) (snd c)
              else if fst c \<in> set filled_vars_byte then replace_values 255 (snd c)
              else snd c)) df)
       else Inl (KeyError (filter (\<lambda>c. c \<notin> set (column_names df)) filled_vars_byte))
     else Inl (KeyError (filter (\<lambda>c. c \<notin> set (column_names df)) filled_vars_float)))"
  by (auto simp: sentinel_clean_def and_then_def replace_sentinel_eq comp_def
      dest: fill_lists_disjoint)

lemma list_all2_map_right: "list_all2 (\<lambda>c c'. c' = f c) df (map f df)"
  by (simp add: list_all2_map2 list_all2_same)

lemma map_of_map_cols:
  "map_of (map (\<lambda>c. (fst c, f (fst c) (snd c))) df) n = map_option (f n) (map_of df n)"
  by (induction df) auto

lemma map_of_sentinel_clean:
  assumes "sentinel_clean df = Inr df'"
  shows "map_of df' n = map_option (\<lambda>xs.
            if n \<in> set filled_vars_float then replace_values (- 9999) xs
            else if n \<in> set filled_vars_byte then replace_values 255 xs
            else xs) (map_of df n)"
  using assms
    map_of_map_cols [of "\<lambda>n xs.
            if n \<in> set filled_vars_float then replace_values (- 9999) xs
            else if n \<in> set filled_vars_byte then replace_values 255 xs
            else xs" df n]
  by (auto simp: sentinel_clean_eq split: if_splits)

lemma sentinel_clean_idem:
  "and_then (sentinel_clean df) sentinel_clean = sentinel_clean df"
proof (cases "set filled_vars_float \<subseteq> set (column_names df) \<and> set filled_vars_byte \<subseteq> set (column_names df)")
  case False
  then show ?thesis by (auto simp: sentinel_clean_eq and_then_def)
next
  case True
  let ?g = "\<lambda>c::string \<times> cell list. (fst c,
              if fst c \<in> set filled_vars_float then replace_values (- 9999) (snd c)
              else if fst c \<in> set filled_vars_byte then replace_values 255 (snd c)
              else snd c)"
  have 1: "sentinel_clean df = Inr (map ?g df)"
    using True by (simp add: sentinel_clean_eq)
  have "column_names (map ?g df) = column_names df" by simp
  then have 2: "sentinel_clean (map ?g df) = Inr (map ?g (map ?g df))"
    using True by (simp add: sentinel_clean_eq del: column_names_map_fst map_map)
  have "?g (?g c) = ?g c" for c
    by (simp add: replace_values_idempotent)
  then have "map ?g (map ?g df) = map ?g df" by (simp add: comp_def)
  with 1 2 show ?thesis by (simp add: and_then_def)
qed

lemma replace_values_eq:
  "replace_values s xs =
    map (\<lambda>x. if cell_equals x s then NaN
              else if integer_column xs \<and> list_ex (\<lambda>x. cell_equals x s) xs then to_float64 x
              else x) xs"
proof (cases "list_ex (\<lambda>x. cell_equals x s) xs")
  case True
  then show ?thesis by (simp add: replace_values_def)
next
  case False
  have m: "map (\<lambda>x. if cell_equals x s then NaN
              else if integer_column xs \<and> list_ex (\<lambda>x. cell_equals x s) xs then to_float64 x
              else x) xs = xs"
    by (intro map_idI) (use False in \<open>simp add: list_ex_iff\<close>)
  show ?thesis unfolding m using False by (simp add: replace_values_def)
qed

lemma map_of_const_cols:
  "map_of (map (\<lambda>n. (n, v)) xs @ rest) n = (if n \<in> set xs then Some v else map_of rest n)"
  by (induction xs) auto

lemma flag_frame_names:
  "set (column_names flag_frame)
    = set filled_vars_float \<union> set filled_vars_byte \<union> {''lat_lowestmode''}"
  by (auto simp: flag_frame_def column_names_def)

lemma float64_of_big_int: "float64_of_int 9007199254740993 = 9007199254740992"
proof -
  have "floorlog 2 9007199254740993 \<le> 54" by (simp add: floorlog_le_iff)
  moreover have "Suc 53 \<le> floorlog 2 9007199254740993"
    by (rule floorlog_ge_SucI) simp_all
  ultimately have l: "floorlog 2 9007199254740993 - 53 = 1" by simp
  have n: "nat \<bar>9007199254740993\<bar> = 9007199254740993" by simp
  show ?thesis unfolding float64_of_int_def Let_def n l by simp
qed

lemma lat_lon_not_filled:
  "''lat_lowestmode'' \<notin> set filled_vars_float" "''lat_lowestmode'' \<notin> set filled_vars_byte"
  "''lon_lowestmode'' \<notin> set filled_vars_float" "''lon_lowestmode'' \<notin> set filled_vars_byte"
  using filled_vars_float_hd [of "''lat_lowestmode''"] filled_vars_float_hd [of "''lon_lowestmode''"]
  by (auto simp: filled_vars_byte_def)

text \<open>
  C4 (as amended). On a table that has every column of the two fill lists, sentinel
  cleaning returns a table with the same columns in the same order and the same number
  of rows in which: a column of \<open>filled_vars_float\<close> has every \<open>-9999\<close> replaced by the
  missing marker; a column of \<open>filled_vars_byte\<close> has every \<open>255\<close> replaced by the
  missing marker; a column of neither list is unchanged, whatever it holds. Every other
  value of a listed column is left as it is, but for one case: an integer column in which
  a sentinel was replaced is converted to \<^verbatim>\<open>float64\<close>, which keeps the value of every
  integer up to \<open>2^53\<close> in magnitude (254 stays 254) and rounds the larger ones.
\<close>

theorem sentinel_clean_columns:
  assumes "set filled_vars_float \<subseteq> set (column_names df)"
    and "set filled_vars_byte \<subseteq> set (column_names df)"
  shows "\<exists>df'. sentinel_clean df = Inr df'
    \<and> list_all2 (\<lambda>c c'. fst c' = fst c \<and> snd c' =
          (if fst c \<in> set filled_vars_float
             then map (\<lambda>x. if cell_equals x (- 9999) then NaN
                   else if integer_column (snd c) \<and> list_ex (\<lambda>x. cell_equals x (- 9999)) (snd c)
                     then to_float64 x
                   else x) (snd c)
           else if fst c \<in> set filled_vars_byte
             then map (\<lambda>x. if cell_equals x 255 then NaN
                   else if integer_column (snd c) \<and> list_ex (\<lambda>x. cell_equals x 255) (snd c)
                     then to_float64 x
                   else x) (snd c)
           else snd c)) df df'
    \<and> nrows df' = nrows df
    \<and> (\<forall>i. \<bar>i\<bar> \<le> 2 ^ 53 \<longrightarrow> to_float64 (Intg i) = Flt (of_int i))
    \<and> (\<forall>r. to_float64 (Flt r) = Flt r)
    \<and> (\<forall>t. to_float64 (Str t) = Str t)"
proof -
  let ?g = "\<lambda>c::string \<times> cell list. (fst c,
              if fst c \<in> set filled_vars_float then replace_values (- 9999) (snd c)
              else if fst c \<in> set filled_vars_byte then replace_values 255 (snd c)
              else snd c)"
  have ok: "sentinel_clean df = Inr (map ?g df)"
    using assms by (simp add: sentinel_clean_eq)
  have L: "list_all2 (\<lambda>c c'. fst c' = fst c \<and> snd c' =
          (if fst c \<in> set filled_vars_float
             then map (\<lambda>x. if cell_equals x (- 9999) then NaN
                   else if integer_column (snd c) \<and> list_ex (\<lambda>x. cell_equals x (- 9999)) (snd c)
                     then to_float64 x
                   else x) (snd c)
           else if fst c \<in> set filled_vars_byte
             then map (\<lambda>x. if cell_equals x 255 then NaN
                   else if integer_column (snd c) \<and> list_ex (\<lambda>x. cell_equals x 255) (snd c)
                     then to_float64 x
                   else x) (snd c)
           else snd c)) df (map ?g df)"
    by (rule list_all2_mono [OF list_all2_map_right])
      (simp add: replace_values_eq [symmetric])
  have N: "nrows (map ?g df) = nrows df"
    by (rule nrows_map_cols) simp
  have E: "\<forall>i. \<bar>i\<bar> \<le> 2 ^ 53 \<longrightarrow> to_float64 (Intg i) = Flt (of_int i)"
    by (simp add: float64_of_int_exact)
  have F: "\<forall>r. to_float64 (Flt r) = Flt r" and S: "\<forall>t. to_float64 (Str t) = Str t"
    by simp_all
  from ok L N E F S show ?thesis by (intro exI [where x = "map ?g df"] conjI)
qed

theorem sentinel_clean_columns_witness:
  "set filled_vars_float \<subseteq> set (column_names flag_frame)
   \<and> set filled_vars_byte \<subseteq> set (column_names flag_frame)
   \<and> (\<exists>df'. sentinel_clean flag_frame = Inr df'
      \<and> map_of df' ''agbd'' = Some [NaN, Flt 255, Flt 254]
      \<and> map_of df' ''response_limit_flag'' = Some [NaN, Flt 254, Flt 0]
      \<and> map_of df' ''lat_lowestmode'' = Some [Flt (- 9999), Flt 255, Flt 254]
      \<and> nrows df' = 3)"
proof -
  have f: "set filled_vars_float \<subseteq> set (column_names flag_frame)"
    and b: "set filled_vars_byte \<subseteq> set (column_names flag_frame)"
    by (auto simp: flag_frame_names)
  from sentinel_clean_columns [OF f b] obtain df' where
    ok: "sentinel_clean flag_frame = Inr df'" and n: "nrows df' = nrows flag_frame"
    by (elim exE conjE)
  have a1: "''agbd'' \<in> set filled_vars_float" by (simp add: filled_vars_float_def)
  have a2: "''response_limit_flag'' \<in> set filled_vars_byte" by (simp add: filled_vars_byte_def)
  have a3: "''lat_lowestmode'' \<notin> set filled_vars_float" by (simp add: filled_vars_float_def)
  have a4: "''lat_lowestmode'' \<notin> set filled_vars_byte" by (simp add: filled_vars_byte_def)
  have a5: "''response_limit_flag'' \<notin> set filled_vars_float" using a2 fill_lists_disjoint by blast
  have l: "map_of flag_frame n =
      (if n \<in> set filled_vars_float then Some [Flt (- 9999), Flt 255, Flt 254]
       else if n \<in> set filled_vars_byte then Some [Intg 255, Intg 254, Intg 0]
       else if n = ''lat_lowestmode'' then Some [Flt (- 9999), Flt 255, Flt 254] else None)" for n
    unfolding flag_frame_def map_of_const_cols by simp
  have "nrows flag_frame = 3"
    by (simp add: flag_frame_def nrows_def filled_vars_float_def)
  with n have 4: "nrows df' = 3" by simp
  have 1: "map_of df' ''agbd'' = Some [NaN, Flt 255, Flt 254]"
    unfolding map_of_sentinel_clean [OF ok] l using a1
    by (simp add: replace_values_def integer_column_def)
  have 2: "map_of df' ''response_limit_flag'' = Some [NaN, Flt 254, Flt 0]"
    unfolding map_of_sentinel_clean [OF ok] l using a2 a5
    by (simp add: replace_values_def integer_column_def float64_of_int_exact)
  have 3: "map_of df' ''lat_lowestmode'' = Some [Flt (- 9999), Flt 255, Flt 254]"
    unfolding map_of_sentinel_clean [OF ok] l using a3 a4 by simp
  from ok 1 2 3 4 have "\<exists>df'. sentinel_clean flag_frame = Inr df'
      \<and> map_of df' ''agbd'' = Some [NaN, Flt 255, Flt 254]
      \<and> map_of df' ''response_limit_flag'' = Some [NaN, Flt 254, Flt 0]
      \<and> map_of df' ''lat_lowestmode'' = Some [Flt (- 9999), Flt 255, Flt 254]
      \<and> nrows df' = 3"
    by (intro exI [where x = df'] conjI)
  with f b show ?thesis by (intro conjI)
qed

text \<open>
  C4 as stated fails. In \<open>big_int_frame\<close> the column \<open>agbd\<close> holds the integer sentinel
  and \<open>9007199254740993\<close>; cleaning replaces the sentinel and changes the other value
  to \<open>9007199254740992\<close>. And \<open>coordinates_frame\<close> lacks the listed columns: cleaning
  raises \<^verbatim>\<open>KeyError\<close> and returns no table.
\<close>

theorem sentinel_clean_rounds_counterexample:
  "set filled_vars_float \<subseteq> set (column_names big_int_frame)
   \<and> set filled_vars_byte \<subseteq> set (column_names big_int_frame)
   \<and> map_of big_int_frame ''agbd'' = Some [Intg (- 9999), Intg 9007199254740993]
   \<and> (\<exists>df'. sentinel_clean big_int_frame = Inr df'
      \<and> map_of df' ''agbd'' = Some [NaN, Flt 9007199254740992])
   \<and> sentinel_clean coordinates_frame = Inl (KeyError filled_vars_float)"
proof -
  have names: "set (column_names big_int_frame) = set filled_vars_float \<union> set filled_vars_byte"
    by (auto simp: big_int_frame_def column_names_def)
  have f: "set filled_vars_float \<subseteq> set (column_names big_int_frame)"
    and b: "set filled_vars_byte \<subseteq> set (column_names big_int_frame)"
    by (auto simp: names)
  have a1: "''agbd'' \<in> set filled_vars_float" by (simp add: filled_vars_float_def)
  have l: "map_of big_int_frame ''agbd'' = Some [Intg (- 9999), Intg 9007199254740993]"
    unfolding big_int_frame_def map_of_const_cols using a1 by simp
  obtain df' where ok: "sentinel_clean big_int_frame = Inr df'"
    using f b by (auto simp: sentinel_clean_eq)
  have r: "map_of df' ''agbd'' = Some [NaN, Flt 9007199254740992]"
    unfolding map_of_sentinel_clean [OF ok] l using a1
    by (simp add: replace_values_def integer_column_def float64_of_big_int)
  from ok r have e: "\<exists>df'. sentinel_clean big_int_frame = Inr df'
      \<and> map_of df' ''agbd'' = Some [NaN, Flt 9007199254740992]"
    by (intro exI [where x = df'] conjI)
  have "set (column_names coordinates_frame) = {''lat_lowestmode'', ''lon_lowestmode''}"
    by (auto simp: coordinates_frame_def column_names_def)
  then have absent: "filter (\<lambda>c. c \<notin> set (column_names coordinates_frame)) filled_vars_float
      = filled_vars_float"
    using lat_lon_not_filled by (auto simp: filter_id_conv)
  have "filled_vars_float \<noteq> []" by (simp add: filled_vars_float_def)
  with absent have "\<not> set filled_vars_float \<subseteq> set (column_names coordinates_frame)"
    by (metis filter_False subsetD)
  then have k: "sentinel_clean coordinates_frame = Inl (KeyError filled_vars_float)"
    by (simp add: sentinel_clean_eq absent)
  from f b l e k show ?thesis by (intro conjI)
qed

text \<open>
  C7. Cleaning a table twice gives what cleaning it once gives: the missing marker is
  neither sentinel, and a table that cannot be cleaned raises the same error either way.
\<close>

theorem sentinel_clean_idempotent:
  "and_then (sentinel_clean df) sentinel_clean = sentinel_clean df"
  by (rule sentinel_clean_idem)

theorem sentinel_clean_idempotent_witness:
  "and_then (sentinel_clean flag_frame) sentinel_clean = sentinel_clean flag_frame
   \<and> (\<exists>df'. sentinel_clean flag_frame = Inr df')"
proof -
  have "\<exists>df'. sentinel_clean flag_frame = Inr df'"
    by (auto simp: sentinel_clean_eq flag_frame_names)
  with sentinel_clean_idempotent [of flag_frame] show ?thesis by (intro conjI)
qed

section \<open>Properties of the row validity filter\<close>

lemma mask_select_simps [simp]:
  "mask_select [] xs = []"
  "mask_select m [] = []"
  "mask_select (b # m) (x # xs) = (if b then x # mask_select m xs else mask_select m xs)"
  by (simp_all add: mask_select_def)

lemma mask_select_map: "mask_select (map P xs) xs = filter P xs"
  by (induction xs) simp_all

lemma length_mask_select:
  "length m = length xs \<Longrightarrow> length (mask_select m xs) = length (filter (\<lambda>b. b) m)"
  by (induction m xs rule: list_induct2) simp_all

lemma rectangular_iff: "rectangular df = (\<forall>c \<in> set df. length (snd c) = nrows df)"
  by (simp add: rectangular_def list_all_iff)

lemma row_at_0: "\<forall>c \<in> set df. snd c \<noteq> [] \<Longrightarrow> row_at df 0 = heads df"
  by (simp add: row_at_def heads_def hd_conv_nth)

lemma row_at_Suc: "\<forall>c \<in> set df. snd c \<noteq> [] \<Longrightarrow> row_at df (Suc i) = row_at (tails df) i"
proof -
  assume a: "\<forall>c \<in> set df. snd c \<noteq> []"
  have "snd c ! Suc i = tl (snd c) ! i" if "c \<in> set df" for c
    using a that by (cases "snd c") auto
  then show ?thesis by (simp add: row_at_def tails_def comp_def)
qed

lemma rows_step:
  assumes "df \<noteq> []" and "\<forall>c \<in> set df. snd c \<noteq> []"
  shows "rows df = heads df # rows (tails df)"
proof -
  have n: "nrows df = Suc (nrows (tails df))"
    using assms by (cases df) (auto simp: nrows_def tails_def)
  have "rows df = row_at df 0 # map (\<lambda>i. row_at df (Suc i)) [0..<nrows (tails df)]"
    unfolding rows_def n by (simp add: upt_conv_Cons map_Suc_upt [symmetric] comp_def del: upt_Suc)
  then show ?thesis
    using assms(2) by (simp add: row_at_0 row_at_Suc rows_def)
qed

lemma length_rows [simp]: "length (rows df) = nrows df"
  by (simp add: rows_def)

lemma rows_mask:
  "length m = nrows df \<Longrightarrow> rectangular df \<Longrightarrow> df \<noteq> [] \<Longrightarrow>
    rows (map (\<lambda>c. (fst c, mask_select m (snd c))) df) = mask_select m (rows df)"
proof (induction m arbitrary: df)
  case Nil
  then show ?case by (cases df) (simp_all add: rows_def nrows_def)
next
  case (Cons b m)
  have len: "\<forall>c \<in> set df. length (snd c) = Suc (length m)"
    using Cons.prems by (simp add: rectangular_iff)
  then have ne: "\<forall>c \<in> set df. snd c \<noteq> []" by auto
  have t_ne: "tails df \<noteq> []" using Cons.prems by (simp add: tails_def)
  have t_len: "\<forall>c \<in> set (tails df). length (snd c) = length m"
    using len by (auto simp: tails_def)
  have t_n: "nrows (tails df) = length m"
    using t_ne t_len by (cases "tails df") (auto simp: nrows_def)
  have t_rect: "rectangular (tails df)"
    using t_len t_n by (simp add: rectangular_iff)
  have IH: "rows (map (\<lambda>c. (fst c, mask_select m (snd c))) (tails df)) = mask_select m (rows (tails df))"
    using Cons.IH [of "tails df"] t_n t_rect t_ne by simp
  have step: "rows df = heads df # rows (tails df)"
    using Cons.prems ne by (simp add: rows_step)
  let ?F = "map (\<lambda>c. (fst c, mask_select (b # m) (snd c))) df"
  show ?case
  proof (cases b)
    case True
    have F: "?F = map (\<lambda>c. (fst c, hd (snd c) # mask_select m (tl (snd c)))) df"
    proof (rule map_cong [OF refl])
      fix c assume "c \<in> set df"
      with ne show "(fst c, mask_select (b # m) (snd c)) = (fst c, hd (snd c) # mask_select m (tl (snd c)))"
        using True by (cases "snd c") auto
    qed
    have "rows ?F = heads ?F # rows (tails ?F)"
      by (rule rows_step) (use Cons.prems in \<open>auto simp: F\<close>)
    moreover have "heads ?F = heads df" by (simp add: F heads_def comp_def)
    moreover have "tails ?F = map (\<lambda>c. (fst c, mask_select m (snd c))) (tails df)"
      by (simp add: F tails_def comp_def)
    ultimately show ?thesis using IH step True by simp
  next
    case False
    have F: "?F = map (\<lambda>c. (fst c, mask_select m (snd c))) (tails df)"
      unfolding tails_def map_map comp_def
    proof (rule map_cong [OF refl])
      fix c assume "c \<in> set df"
      with ne show "(fst c, mask_select (b # m) (snd c)) = (fst (fst c, tl (snd c)), mask_select m (snd (fst c, tl (snd c))))"
        using False by (cases "snd c") auto
    qed
    show ?thesis unfolding F IH step using False by simp
  qed
qed

lemma map_of_row_at: "map_of (row_at df i) name = map_option (\<lambda>xs. xs ! i) (map_of df name)"
  by (induction df) (auto simp: row_at_def)

lemma map_of_in_names: "(map_of df name \<noteq> None) = (name \<in> set (column_names df))"
  by (simp add: column_names_def map_of_eq_None_iff)

lemma column_length:
  "rectangular df \<Longrightarrow> map_of df name = Some xs \<Longrightarrow> length xs = nrows df"
  using map_of_SomeD [of df name xs] by (fastforce simp: rectangular_iff)

lemma holds_value_rows:
  assumes "rectangular df" and "map_of df name = Some xs"
  shows "map (\<lambda>r. holds_value r name) (rows df) = map notnull xs"
proof -
  have n: "length xs = nrows df" using assms by (rule column_length)
  have "map (\<lambda>r. holds_value r name) (rows df) = map (\<lambda>i. notnull (xs ! i)) [0..<nrows df]"
    using assms(2) by (simp add: rows_def holds_value_def map_of_row_at comp_def)
  also have "\<dots> = map notnull (map ((!) xs) [0..<length xs])"
    by (simp add: n comp_def)
  finally show ?thesis by (simp add: map_nth)
qed

lemma rectangular_mask:
  assumes "rectangular df" and "length m = nrows df"
  shows "rectangular (map (\<lambda>c. (fst c, mask_select m (snd c))) df)"
proof -
  have "length (mask_select m (snd c)) = length (filter (\<lambda>b. b) m)" if "c \<in> set df" for c
    using assms that by (simp add: rectangular_iff length_mask_select)
  then show ?thesis
    by (cases df) (auto simp: rectangular_iff nrows_def)
qed

lemma filter_notnull_rows:
  assumes "rectangular df" and "name \<in> set (column_names df)"
  shows "\<exists>df'. filter_notnull name df = Inr df'
    \<and> rows df' = filter (\<lambda>r. holds_value r name) (rows df)
    \<and> rectangular df' \<and> column_names df' = column_names df"
proof -
  from assms(2) obtain xs where xs: "map_of df name = Some xs"
    using map_of_in_names [of df name] by auto
  have n: "length (map notnull xs) = nrows df"
    using column_length [OF assms(1) xs] by simp
  have ne: "df \<noteq> []" using assms(2) by (auto simp: column_names_def)
  let ?df' = "map (\<lambda>c. (fst c, mask_select (map notnull xs) (snd c))) df"
  have "filter_notnull name df = Inr ?df'"
    by (simp add: filter_notnull_def xs)
  moreover have "rows ?df' = filter (\<lambda>r. holds_value r name) (rows df)"
    using rows_mask [OF n assms(1) ne] holds_value_rows [OF assms(1) xs]
      mask_select_map [of "\<lambda>r. holds_value r name" "rows df"] by simp
  moreover have "rectangular ?df'" using assms(1) n by (rule rectangular_mask)
  moreover have "column_names ?df' = column_names df" by (simp add: column_names_def comp_def)
  ultimately show ?thesis by blast
qed

lemma filter_rows_rows:
  assumes "rectangular df"
    and "''lat_lowestmode'' \<in> set (column_names df)"
    and "''lon_lowestmode'' \<in> set (column_names df)"
  shows "\<exists>df'. filter_rows df = Inr df'
    \<and> rows df' =
        filter (\<lambda>r. holds_value r ''lat_lowestmode'' \<and> holds_value r ''lon_lowestmode'') (rows df)
    \<and> nrows df' \<le> nrows df"
proof -
  from filter_notnull_rows [OF assms(1,2)] obtain df1 where
    1: "filter_notnull ''lat_lowestmode'' df = Inr df1"
    and r1: "rows df1 = filter (\<lambda>r. holds_value r ''lat_lowestmode'') (rows df)"
    and rect1: "rectangular df1" and names1: "column_names df1 = column_names df"
    by blast
  from filter_notnull_rows [OF rect1, of "''lon_lowestmode''"] assms(3) names1 obtain df2 where
    2: "filter_notnull ''lon_lowestmode'' df1 = Inr df2"
    and r2: "rows df2 = filter (\<lambda>r. holds_value r ''lon_lowestmode'') (rows df1)"
    by auto
  have ok: "filter_rows df = Inr df2"
    by (simp add: filter_rows_def and_then_def 1 2)
  have rows: "rows df2 =
      filter (\<lambda>r. holds_value r ''lat_lowestmode'' \<and> holds_value r ''lon_lowestmode'') (rows df)"
    by (simp add: r1 r2)
  have "length (rows df2) \<le> length (rows df)"
    unfolding rows by (rule length_filter_le)
  then have "nrows df2 \<le> nrows df" by simp
  with ok rows show ?thesis by blast
qed


text \<open>
  C2. On an assembled and cleaned table (any table whose columns have one length and
  that has the two coordinate columns) the filter returns a table whose rows are exactly
  the rows of the cleaned table, in their order, in which both \<open>lat_lowestmode\<close> and
  \<open>lon_lowestmode\<close> hold a non-missing value; so it has at most as many rows.
\<close>

theorem filter_rows_correct:
  assumes "rectangular df"
    and "''lat_lowestmode'' \<in> set (column_names df)"
    and "''lon_lowestmode'' \<in> set (column_names df)"
  shows "\<exists>df'. filter_rows df = Inr df'
    \<and> rows df' =
        filter (\<lambda>r. holds_value r ''lat_lowestmode'' \<and> holds_value r ''lon_lowestmode'') (rows df)
    \<and> nrows df' \<le> nrows df"
  using assms by (rule filter_rows_rows)

lemma rows_coord_frame:
  "rows coord_frame =
    [[(''lat_lowestmode'', Flt 12.5), (''lon_lowestmode'', Flt 45), (''agbd'', Flt 100)],
     [(''lat_lowestmode'', NaN), (''lon_lowestmode'', Flt 45), (''agbd'', Flt 1)],
     [(''lat_lowestmode'', Flt 3), (''lon_lowestmode'', NaN), (''agbd'', Flt 2)]]"
  by (simp add: rows_def nrows_def row_at_def coord_frame_def upt_rec_numeral)

theorem filter_rows_correct_witness:
  "rectangular coord_frame
   \<and> ''lat_lowestmode'' \<in> set (column_names coord_frame)
   \<and> ''lon_lowestmode'' \<in> set (column_names coord_frame)
   \<and> (\<exists>df'. filter_rows coord_frame = Inr df'
      \<and> rows df' =
        [[(''lat_lowestmode'', Flt 12.5), (''lon_lowestmode'', Flt 45), (''agbd'', Flt 100)]]
      \<and> nrows df' \<le> nrows coord_frame)"
proof -
  have r: "rectangular coord_frame"
    by (simp add: rectangular_def nrows_def coord_frame_def)
  have a: "''lat_lowestmode'' \<in> set (column_names coord_frame)"
    and b: "''lon_lowestmode'' \<in> set (column_names coord_frame)"
    by (simp_all add: column_names_def coord_frame_def)
  have "filter (\<lambda>r. holds_value r ''lat_lowestmode'' \<and> holds_value r ''lon_lowestmode'') (rows coord_frame)
    = [[(''lat_lowestmode'', Flt 12.5), (''lon_lowestmode'', Flt 45), (''agbd'', Flt 100)]]"
    by (simp add: rows_coord_frame holds_value_def notnull_def)
  with filter_rows_correct [OF r a b] r a b show ?thesis by auto
qed

section \<open>Properties of the driver\<close>

lemma to_csv_eq:
  "to_csv df header = (if header then [Header (column_names df)] else []) @ data_lines df"
  by (simp add: to_csv_def data_lines_def)

lemma write_csv_loop_no_beam:
  "filter (\<lambda>k. startswith k ''BEAM'') ks = [] \<Longrightarrow>
    write_csv_loop derived fh ks is_first out = (out, None)"
  by (induction ks) (auto split: if_splits)

lemma write_csv_loop_tables:
  "map (beam_table derived fh) (filter (\<lambda>k. startswith k ''BEAM'') ks) = map Inr dfs \<Longrightarrow>
    \<exists>out'. write_csv_loop derived fh ks is_first out = (out', None)
      \<and> csv_lines out' =
          csv_lines out
          @ (if is_first then (case dfs of [] \<Rightarrow> [] | df # _ \<Rightarrow> [Header (column_names df)]) else [])
          @ concat (map data_lines dfs)"
proof (induction ks arbitrary: is_first out dfs)
  case Nil
  then show ?case by simp
next
  case (Cons k ks)
  show ?case
  proof (cases "startswith k ''BEAM''")
    case False
    then show ?thesis using Cons.IH [of dfs is_first out] Cons.prems by simp
  next
    case True
    with Cons.prems obtain df rest where dfs: "dfs = df # rest"
      and df: "beam_table derived fh k = Inr df"
      and rest: "map (beam_table derived fh) (filter (\<lambda>k. startswith k ''BEAM'') ks) = map Inr rest"
      by (cases dfs) auto
    let ?out1 = "out\<lparr>printed := printed out @ [[CHR 0x09, CHR '' ''] @ k]\<rparr>"
    let ?out2 = "?out1\<lparr>csv_lines := csv_lines ?out1 @ to_csv df is_first\<rparr>"
    from Cons.IH [OF rest, of False ?out2] obtain out' where
      run: "write_csv_loop derived fh ks False ?out2 = (out', None)"
      and lines: "csv_lines out' = csv_lines ?out2 @ concat (map data_lines rest)"
      by auto
    have "write_csv_loop derived fh (k # ks) is_first out = (out', None)"
      using True df run by (simp add: Let_def)
    moreover have "csv_lines out' =
          csv_lines out
          @ (if is_first then (case dfs of [] \<Rightarrow> [] | df # _ \<Rightarrow> [Header (column_names df)]) else [])
          @ concat (map data_lines dfs)"
      using lines by (simp add: dfs to_csv_eq)
    ultimately show ?thesis by blast
  qed
qed

lemma write_csv_loop_error:
  "write_csv_loop derived fh ks is_first out = (out', Some e) \<Longrightarrow>
    \<exists>k \<in> set (filter (\<lambda>k. startswith k ''BEAM'') ks). beam_table derived fh k = Inl e"
  by (induction ks arbitrary: is_first out) (auto split: if_splits sum.splits simp: Let_def)

lemma write_csv_loop_first_error:
  "startswith k ''BEAM'' \<Longrightarrow> beam_table derived fh k = Inl e \<Longrightarrow>
    write_csv_loop derived fh (k # ks) is_first out =
      (out\<lparr>printed := printed out @ [[CHR 0x09, CHR '' ''] @ k]\<rparr>, Some e)"
  by (simp add: Let_def)


lemma extract_values_accepted:
  "startswith (basename p) ''GEDI'' \<Longrightarrow> endswith (basename p) ''.h5'' \<Longrightarrow>
   h5_files w p = Some fh \<Longrightarrow> writable w output_path \<Longrightarrow>
    extract_values derived [p] output_path w =
      (w\<lparr>text_files := (text_files w)(output_path \<mapsto>
            csv_lines (fst (write_csv derived fh \<lparr>csv_lines = [], printed = console w\<rparr>))),
          console := printed (fst (write_csv derived fh \<lparr>csv_lines = [], printed = console w\<rparr>))\<rparr>,
       snd (write_csv derived fh \<lparr>csv_lines = [], printed = console w\<rparr>))"
  by (simp add: extract_values_def Let_def)


lemma write_csv_no_beam:
  "beam_keys fh = [] \<Longrightarrow> write_csv derived fh out = (out, None)"
  unfolding write_csv_def beam_keys_def by (rule write_csv_loop_no_beam)





lemma extract_values_unopenable_source:
  "startswith (basename p) ''GEDI'' \<Longrightarrow> endswith (basename p) ''.h5'' \<Longrightarrow>
   h5_files w p = None \<Longrightarrow>
    extract_values derived [p] output_path w = (w, Some (OSError p))"
  by (simp add: extract_values_def Let_def)

lemma extract_values_unwritable_destination:
  "startswith (basename p) ''GEDI'' \<Longrightarrow> endswith (basename p) ''.h5'' \<Longrightarrow>
   h5_files w p = Some fh \<Longrightarrow> \<not> writable w output_path \<Longrightarrow>
    extract_values derived [p] output_path w = (w, Some (OSError output_path))"
  by (simp add: extract_values_def Let_def)

text \<open>
  C10 (as amended). When the file name passes the guard, the source file can be opened and
  the destination can be opened for writing, the destination is created or truncated
  before \<open>write_csv\<close> looks at any key: after the run it holds exactly what \<open>write_csv\<close>
  wrote to an empty file, whatever it held before and however the run ended. For a source
  without a key starting with \<open>BEAM\<close> the run completes normally and leaves the
  destination empty, without a header row. When the source cannot be opened the run ends
  with \<^verbatim>\<open>OSError\<close> on the source path before the destination is opened; when the
  source opens and the destination cannot be opened for writing it ends with
  \<^verbatim>\<open>OSError\<close> on the destination path. Neither run changes any file.
\<close>

theorem extract_values_opens_destination:
  assumes "startswith (basename p) ''GEDI''" and "endswith (basename p) ''.h5''"
  shows "(h5_files w p = Some fh \<and> writable w output_path \<longrightarrow>
        text_files (fst (extract_values derived [p] output_path w)) output_path
          = Some (csv_lines (fst (write_csv derived fh \<lparr>csv_lines = [], printed = console w\<rparr>)))
        \<and> (beam_keys fh = [] \<longrightarrow>
            extract_values derived [p] output_path w
              = (w\<lparr>text_files := (text_files w)(output_path \<mapsto> [])\<rparr>, None)))
    \<and> (h5_files w p = None \<longrightarrow>
        extract_values derived [p] output_path w = (w, Some (OSError p)))
    \<and> (h5_files w p = Some fh \<and> \<not> writable w output_path \<longrightarrow>
        extract_values derived [p] output_path w = (w, Some (OSError output_path)))"
proof (intro conjI impI)
  assume a: "h5_files w p = Some fh \<and> writable w output_path"
  then show "text_files (fst (extract_values derived [p] output_path w)) output_path
          = Some (csv_lines (fst (write_csv derived fh \<lparr>csv_lines = [], printed = console w\<rparr>)))"
    using assms by (simp add: extract_values_accepted)
  assume "beam_keys fh = []"
  then show "extract_values derived [p] output_path w
              = (w\<lparr>text_files := (text_files w)(output_path \<mapsto> [])\<rparr>, None)"
    using assms a by (simp add: extract_values_accepted write_csv_no_beam)
next
  assume "h5_files w p = None"
  with assms show "extract_values derived [p] output_path w = (w, Some (OSError p))"
    by (rule extract_values_unopenable_source)
next
  assume "h5_files w p = Some fh \<and> \<not> writable w output_path"
  then show "extract_values derived [p] output_path w = (w, Some (OSError output_path))"
    using assms by (simp add: extract_values_unwritable_destination)
qed

theorem extract_values_opens_destination_witness:
  "startswith (basename ''/data/GEDI04_A.h5'') ''GEDI''
   \<and> endswith (basename ''/data/GEDI04_A.h5'') ''.h5''
   \<and> h5_files stale_world ''/data/GEDI04_A.h5'' = Some no_beam_source
   \<and> writable stale_world ''out.csv''
   \<and> beam_keys no_beam_source = []
   \<and> text_files stale_world ''out.csv'' = Some [Header [''stale'']]
   \<and> extract_values sample_breakdown [''/data/GEDI04_A.h5''] ''out.csv'' stale_world
       = (stale_world\<lparr>text_files := (text_files stale_world)(''out.csv'' \<mapsto> [])\<rparr>, None)
   \<and> text_files (fst (extract_values sample_breakdown [''/data/GEDI04_A.h5''] ''out.csv'' stale_world))
        ''out.csv'' = Some []
   \<and> startswith (basename ''GEDI_text.h5'') ''GEDI''
   \<and> endswith (basename ''GEDI_text.h5'') ''.h5''
   \<and> h5_files stale_world ''GEDI_text.h5'' = None
   \<and> extract_values sample_breakdown [''GEDI_text.h5''] ''out.csv'' stale_world
       = (stale_world, Some (OSError ''GEDI_text.h5''))
   \<and> h5_files (stale_world\<lparr>writable := (\<lambda>p. False)\<rparr>) ''/data/GEDI04_A.h5''
       = Some no_beam_source
   \<and> extract_values sample_breakdown [''/data/GEDI04_A.h5''] ''out.csv''
        (stale_world\<lparr>writable := (\<lambda>p. False)\<rparr>)
       = (stale_world\<lparr>writable := (\<lambda>p. False)\<rparr>, Some (OSError ''out.csv''))"
proof -
  have a: "startswith (basename ''/data/GEDI04_A.h5'') ''GEDI''"
    and b: "endswith (basename ''/data/GEDI04_A.h5'') ''.h5''"
    by (simp_all add: basename_def startswith_def endswith_def suffix_def)
  have h: "h5_files stale_world ''/data/GEDI04_A.h5'' = Some no_beam_source"
    and w: "writable stale_world ''out.csv''"
    and s: "text_files stale_world ''out.csv'' = Some [Header [''stale'']]"
    by (simp_all add: stale_world_def)
  have k: "beam_keys no_beam_source = []"
    by (simp add: beam_keys_def no_beam_source_def startswith_def)
  have hw: "h5_files stale_world ''/data/GEDI04_A.h5'' = Some no_beam_source
      \<and> writable stale_world ''out.csv''"
    using h w by (intro conjI)
  note t = extract_values_opens_destination [OF a b, of stale_world no_beam_source "''out.csv''"
      sample_breakdown, THEN conjunct1, THEN mp, OF hw]
  have 1: "extract_values sample_breakdown [''/data/GEDI04_A.h5''] ''out.csv'' stale_world
       = (stale_world\<lparr>text_files := (text_files stale_world)(''out.csv'' \<mapsto> [])\<rparr>, None)"
    by (rule t [THEN conjunct2, THEN mp, OF k])
  have 2: "text_files (fst (extract_values sample_breakdown [''/data/GEDI04_A.h5''] ''out.csv'' stale_world))
        ''out.csv'' = Some []"
    unfolding 1 by simp
  have a': "startswith (basename ''GEDI_text.h5'') ''GEDI''"
    and b': "endswith (basename ''GEDI_text.h5'') ''.h5''"
    by (simp_all add: basename_def startswith_def endswith_def suffix_def)
  have h': "h5_files stale_world ''GEDI_text.h5'' = None"
    by (simp add: stale_world_def)
  have 3: "extract_values sample_breakdown [''GEDI_text.h5''] ''out.csv'' stale_world
       = (stale_world, Some (OSError ''GEDI_text.h5''))"
    by (rule extract_values_opens_destination [OF a' b', of stale_world no_beam_source "''out.csv''"
      sample_breakdown, THEN conjunct2, THEN conjunct1, THEN mp, OF h'])
  have h'': "h5_files (stale_world\<lparr>writable := (\<lambda>p. False)\<rparr>) ''/data/GEDI04_A.h5''
      = Some no_beam_source"
    by (simp add: stale_world_def)
  have hw'': "h5_files (stale_world\<lparr>writable := (\<lambda>p. False)\<rparr>) ''/data/GEDI04_A.h5''
      = Some no_beam_source
      \<and> \<not> writable (stale_world\<lparr>writable := (\<lambda>p. False)\<rparr>) ''out.csv''"
    using h'' by simp
  have 4: "extract_values sample_breakdown [''/data/GEDI04_A.h5''] ''out.csv''
        (stale_world\<lparr>writable := (\<lambda>p. False)\<rparr>)
       = (stale_world\<lparr>writable := (\<lambda>p. False)\<rparr>, Some (OSError ''out.csv''))"
    by (rule extract_values_opens_destination [OF a b,
      of "stale_world\<lparr>writable := (\<lambda>p. False)\<rparr>" no_beam_source "''out.csv''"
      sample_breakdown, THEN conjunct2, THEN conjunct2, THEN mp, OF hw''])
  from a b h w k s 1 2 a' b' h' 3 h'' 4 show ?thesis by (intro conjI)
qed

text \<open>
  C10 as stated fails: \<^verbatim>\<open>GEDI_text.h5\<close> passes the guard, but it is not a file the HDF5
  library can open. The source is opened first, so the run ends with \<^verbatim>\<open>OSError\<close>
  before the destination is opened: an existing \<^verbatim>\<open>out.csv\<close> keeps its stale line and a
  destination that did not exist is not created. With an openable source and a
  destination that cannot be opened for writing the run ends with \<^verbatim>\<open>OSError\<close> as well.
\<close>

theorem extract_values_unopened_counterexample:
  "startswith (basename ''GEDI_text.h5'') ''GEDI''
   \<and> endswith (basename ''GEDI_text.h5'') ''.h5''
   \<and> h5_files stale_world ''GEDI_text.h5'' = None
   \<and> extract_values sample_breakdown [''GEDI_text.h5''] ''out.csv'' stale_world
       = (stale_world, Some (OSError ''GEDI_text.h5''))
   \<and> text_files (fst (extract_values sample_breakdown [''GEDI_text.h5''] ''out.csv'' stale_world))
        ''out.csv'' = Some [Header [''stale'']]
   \<and> text_files (fst (extract_values sample_breakdown [''GEDI_text.h5''] ''new.csv'' stale_world))
        ''new.csv'' = None
   \<and> extract_values sample_breakdown [''/data/GEDI04_A.h5''] ''out.csv''
        (stale_world\<lparr>writable := (\<lambda>p. False)\<rparr>)
       = (stale_world\<lparr>writable := (\<lambda>p. False)\<rparr>, Some (OSError ''out.csv''))"
proof -
  have a: "startswith (basename ''GEDI_text.h5'') ''GEDI''"
    and b: "endswith (basename ''GEDI_text.h5'') ''.h5''"
    by (simp_all add: basename_def startswith_def endswith_def suffix_def)
  have h: "h5_files stale_world ''GEDI_text.h5'' = None"
    by (simp add: stale_world_def)
  have 1: "extract_values sample_breakdown [''GEDI_text.h5''] output_path stale_world
       = (stale_world, Some (OSError ''GEDI_text.h5''))" for output_path
    using a b h by (rule extract_values_unopenable_source)
  have 2: "text_files (fst (extract_values sample_breakdown [''GEDI_text.h5''] ''out.csv'' stale_world))
        ''out.csv'' = Some [Header [''stale'']]"
    unfolding 1 by (simp add: stale_world_def)
  have 3: "text_files (fst (extract_values sample_breakdown [''GEDI_text.h5''] ''new.csv'' stale_world))
        ''new.csv'' = None"
    unfolding 1 by (simp add: stale_world_def)
  have a': "startswith (basename ''/data/GEDI04_A.h5'') ''GEDI''"
    and b': "endswith (basename ''/data/GEDI04_A.h5'') ''.h5''"
    by (simp_all add: basename_def startswith_def endswith_def suffix_def)
  have h': "h5_files (stale_world\<lparr>writable := (\<lambda>p. False)\<rparr>) ''/data/GEDI04_A.h5'' = Some no_beam_source"
    by (simp add: stale_world_def)
  have w': "\<not> writable (stale_world\<lparr>writable := (\<lambda>p. False)\<rparr>) ''out.csv''"
    by simp
  have 4: "extract_values sample_breakdown [''/data/GEDI04_A.h5''] ''out.csv''
        (stale_world\<lparr>writable := (\<lambda>p. False)\<rparr>)
       = (stale_world\<lparr>writable := (\<lambda>p. False)\<rparr>, Some (OSError ''out.csv''))"
    using a' b' h' w' by (rule extract_values_unwritable_destination)
  from a b h 1 2 3 4 show ?thesis by (intro conjI)
qed

section \<open>Properties of the beam table assembler\<close>

lemma basename_plain: "CHR ''/'' \<notin> set v \<Longrightarrow> basename v = v"
proof -
  assume a: "CHR ''/'' \<notin> set v"
  have tw: "takeWhile (\<lambda>c. c \<noteq> CHR ''/'') (rev v) = rev v"
    by (rule takeWhile_eq_all_conv [THEN iffD2]) (use a in auto)
  show ?thesis unfolding basename_def tw by simp
qed

lemma basename_grouped: "CHR ''/'' \<notin> set v \<Longrightarrow> basename (g @ ''/'' @ v) = v"
proof -
  assume a: "CHR ''/'' \<notin> set v"
  have "takeWhile (\<lambda>c. c \<noteq> CHR ''/'') (rev v @ CHR ''/'' # rev g) = rev v"
    using a by (subst takeWhile_append2) auto
  then show ?thesis by (simp add: basename_def)
qed

lemma gedi_vars_no_slash: "v \<in> set (all_vars gedi_vars) \<Longrightarrow> CHR ''/'' \<notin> set v"
  unfolding set_all_vars by (auto simp: gedi_vars_def)

lemma agbd_prediction_vars_no_slash: "v \<in> set (all_vars agbd_prediction_vars) \<Longrightarrow> CHR ''/'' \<notin> set v"
  unfolding set_all_vars by (auto simp: agbd_prediction_vars_def)

lemma geolocation_vars_no_slash: "v \<in> set (all_vars geolocation_vars) \<Longrightarrow> CHR ''/'' \<notin> set v"
  unfolding set_all_vars by (auto simp: geolocation_vars_def)

lemma land_cover_data_vars_no_slash: "v \<in> set (all_vars land_cover_data_vars) \<Longrightarrow> CHR ''/'' \<notin> set v"
  unfolding set_all_vars by (auto simp: land_cover_data_vars_def)

lemma foldl_hdf_to_df:
  "foldl (\<lambda>df v. hdf_to_df fh k (f v) df) df vs = df @ concat (map (\<lambda>v. fetch fh k (f v)) vs)"
  by (induction vs arbitrary: df) (auto simp: hdf_to_df_def fetch_def split: option.splits)

lemma assemble_eq: "assemble fh k = concat (map (fetch fh k) schema_paths)"
  unfolding assemble_def group_vars_def schema_paths_def
  by (simp add: foldl_hdf_to_df [where f = "\<lambda>v. v"] foldl_hdf_to_df comp_def)

lemma column_names_fetch:
  "column_names (concat (map (fetch fh k) ps)) =
    map basename (filter (\<lambda>p. hdf_dataset fh (k @ ''/'' @ p) \<noteq> None) ps)"
  by (induction ps) (auto simp: column_names_def fetch_def)

lemma map_basename_plain:
  "(\<And>v. v \<in> set vs \<Longrightarrow> CHR ''/'' \<notin> set v) \<Longrightarrow> map basename vs = vs"
  by (induction vs) (simp_all add: basename_plain)

lemma map_basename_grouped:
  "(\<And>v. v \<in> set vs \<Longrightarrow> CHR ''/'' \<notin> set v) \<Longrightarrow>
    map basename (map (\<lambda>v. g @ ''/'' @ v) vs) = vs"
  by (induction vs) (simp_all add: basename_grouped del: append.simps)

lemma basename_schema_paths:
  "map basename schema_paths =
    all_vars gedi_vars @ all_vars agbd_prediction_vars @ all_vars geolocation_vars
    @ all_vars land_cover_data_vars"
proof -
  have e: "schema_paths =
    all_vars gedi_vars
    @ map (\<lambda>v. ''agbd_prediction'' @ ''/'' @ v) (all_vars agbd_prediction_vars)
    @ map (\<lambda>v. ''geolocation'' @ ''/'' @ v) (all_vars geolocation_vars)
    @ map (\<lambda>v. ''land_cover_data'' @ ''/'' @ v) (all_vars land_cover_data_vars)"
    by (simp add: schema_paths_def group_vars_def)
  have 1: "map basename (all_vars gedi_vars) = all_vars gedi_vars"
    by (rule map_basename_plain [OF gedi_vars_no_slash])
  have 2: "map basename (map (\<lambda>v. ''agbd_prediction'' @ ''/'' @ v) (all_vars agbd_prediction_vars))
      = all_vars agbd_prediction_vars"
    by (rule map_basename_grouped [OF agbd_prediction_vars_no_slash])
  have 3: "map basename (map (\<lambda>v. ''geolocation'' @ ''/'' @ v) (all_vars geolocation_vars))
      = all_vars geolocation_vars"
    by (rule map_basename_grouped [OF geolocation_vars_no_slash])
  have 4: "map basename (map (\<lambda>v. ''land_cover_data'' @ ''/'' @ v) (all_vars land_cover_data_vars))
      = all_vars land_cover_data_vars"
    by (rule map_basename_grouped [OF land_cover_data_vars_no_slash])
  show ?thesis unfolding e map_append 1 2 3 4 by (rule refl)
qed

lemma column_names_assemble:
  "column_names (assemble fh k) =
    map basename (filter (\<lambda>p. hdf_dataset fh (k @ ''/'' @ p) \<noteq> None) schema_paths)"
  by (simp add: assemble_eq column_names_fetch)

lemma column_names_assemble_complete:
  assumes "\<forall>p \<in> set schema_paths. hdf_dataset fh (k @ ''/'' @ p) \<noteq> None"
  shows "column_names (assemble fh k) =
    all_vars gedi_vars @ all_vars agbd_prediction_vars @ all_vars geolocation_vars
    @ all_vars land_cover_data_vars"
proof -
  have "filter (\<lambda>p. hdf_dataset fh (k @ ''/'' @ p) \<noteq> None) schema_paths = schema_paths"
    using assms by (simp add: filter_id_conv)
  then show ?thesis by (simp add: column_names_assemble basename_schema_paths)
qed

lemma fill_lists_in_columns:
  "set filled_vars_float \<union> set filled_vars_byte
    \<subseteq> set (all_vars gedi_vars @ all_vars agbd_prediction_vars @ all_vars geolocation_vars
        @ all_vars land_cover_data_vars)"
  using filled_float_in_schema filled_byte_in_schema by (auto simp: set_all_vars)

lemma key_columns_in_gedi_vars:
  "''lat_lowestmode'' \<in> set (all_vars gedi_vars)"
  "''lon_lowestmode'' \<in> set (all_vars gedi_vars)"
  "''shot_number'' \<in> set (all_vars gedi_vars)"
  "''agbd'' \<in> set (all_vars gedi_vars)"
  unfolding set_all_vars by (simp_all add: gedi_vars_def)

lemma map_of_beam_group:
  "map_of (beam_group k ps f) (k @ ''/'' @ p) = (if p \<in> set ps then Some (f p) else None)"
  unfolding beam_group_def by (induction ps) simp_all

lemma filter_notnull_eq:
  "filter_notnull name df =
    (if name \<in> set (column_names df)
     then Inr (map (\<lambda>c. (fst c, mask_select (map notnull (the (map_of df name))) (snd c))) df)
     else Inl (AttributeError name))"
  using map_of_in_names [of df name] by (auto simp: filter_notnull_def split: option.splits)

lemma filter_rows_eq:
  "filter_rows df =
    (if ''lat_lowestmode'' \<in> set (column_names df)
     then if ''lon_lowestmode'' \<in> set (column_names df)
       then Inr (map (\<lambda>c. (fst c, mask_select (map notnull (the (map_of
              (map (\<lambda>c. (fst c, mask_select (map notnull (the (map_of df ''lat_lowestmode''))) (snd c))) df)
              ''lon_lowestmode''))) (snd c)))
            (map (\<lambda>c. (fst c, mask_select (map notnull (the (map_of df ''lat_lowestmode''))) (snd c))) df))
       else Inl (AttributeError ''lon_lowestmode'')
     else Inl (AttributeError ''lat_lowestmode''))"
  by (simp add: filter_rows_def and_then_def filter_notnull_eq)

lemma sentinel_clean_names: "sentinel_clean df = Inr df' \<Longrightarrow> column_names df' = column_names df"
  by (auto simp: sentinel_clean_eq split: if_splits)

lemma filter_rows_names: "filter_rows df = Inr df' \<Longrightarrow> column_names df' = column_names df"
  by (auto simp: filter_rows_eq comp_def column_names_def split: if_splits)

lemma clean_filter_ok_iff:
  "(\<exists>df. and_then (sentinel_clean t) filter_rows = Inr df) =
    (set filled_vars_float \<union> set filled_vars_byte \<union> {''lat_lowestmode'', ''lon_lowestmode''}
      \<subseteq> set (column_names t))"
proof (cases "sentinel_clean t")
  case (Inl e)
  then show ?thesis by (auto simp: and_then_def sentinel_clean_eq split: if_splits)
next
  case (Inr t')
  then have n: "column_names t' = column_names t" by (rule sentinel_clean_names)
  have "set filled_vars_float \<subseteq> set (column_names t) \<and> set filled_vars_byte \<subseteq> set (column_names t)"
    using Inr by (auto simp: sentinel_clean_eq split: if_splits)
  then show ?thesis
    using Inr n by (auto simp: and_then_def filter_rows_eq)
qed

lemma beam_table_clean_error:
  "\<not> set filled_vars_float \<subseteq> set (column_names (assemble fh k)) \<Longrightarrow>
    beam_table derived fh k =
      Inl (KeyError (filter (\<lambda>c. c \<notin> set (column_names (assemble fh k))) filled_vars_float))"
  by (simp add: beam_table_def sentinel_clean_eq and_then_def)

lemma beam_table_ok_iff:
  "(\<exists>df. beam_table derived fh k = Inr df) =
    (set filled_vars_float \<union> set filled_vars_byte
        \<union> {''lat_lowestmode'', ''lon_lowestmode'', ''shot_number''}
      \<subseteq> set (column_names (assemble fh k)))"
proof (cases "and_then (sentinel_clean (assemble fh k)) filter_rows")
  case (Inl e)
  then have "\<not> (\<exists>df. and_then (sentinel_clean (assemble fh k)) filter_rows = Inr df)" by simp
  then show ?thesis
    using Inl unfolding clean_filter_ok_iff by (auto simp: beam_table_def and_then_def)
next
  case (Inr df)
  then have "\<exists>df. and_then (sentinel_clean (assemble fh k)) filter_rows = Inr df" by blast
  then have ok: "set filled_vars_float \<union> set filled_vars_byte \<union> {''lat_lowestmode'', ''lon_lowestmode''}
      \<subseteq> set (column_names (assemble fh k))"
    unfolding clean_filter_ok_iff .
  from Inr obtain t' where c: "sentinel_clean (assemble fh k) = Inr t'" and f: "filter_rows t' = Inr df"
    by (auto simp: and_then_def split: sum.splits)
  have n: "column_names df = column_names (assemble fh k)"
    using sentinel_clean_names [OF c] filter_rows_names [OF f] by simp
  have "(\<exists>df'. add_shot_number_breakdown derived df = Inr df') = (''shot_number'' \<in> set (column_names df))"
    using map_of_in_names [of df "''shot_number''"]
    by (auto simp: add_shot_number_breakdown_def split: option.splits)
  then show ?thesis
    using ok Inr n by (auto simp: beam_table_def and_then_def)
qed

lemma schema_paths_eq:
  "schema_paths =
    all_vars gedi_vars
    @ map (\<lambda>v. ''agbd_prediction'' @ ''/'' @ v) (all_vars agbd_prediction_vars)
    @ map (\<lambda>v. ''geolocation'' @ ''/'' @ v) (all_vars geolocation_vars)
    @ map (\<lambda>v. ''land_cover_data'' @ ''/'' @ v) (all_vars land_cover_data_vars)"
  by (simp add: schema_paths_def group_vars_def)

lemma gedi_vars_in_schema_paths: "v \<in> set (all_vars gedi_vars) \<Longrightarrow> v \<in> set schema_paths"
  unfolding schema_paths_eq by simp

lemma basename_in_schema_paths:
  assumes "p \<in> set schema_paths"
  shows "p \<in> set (all_vars gedi_vars) \<and> basename p = p
    \<or> basename p \<in> set (all_vars agbd_prediction_vars) \<union> set (all_vars geolocation_vars)
        \<union> set (all_vars land_cover_data_vars)"
proof -
  from assms consider
      "p \<in> set (all_vars gedi_vars)"
    | v where "v \<in> set (all_vars agbd_prediction_vars)" "p = ''agbd_prediction'' @ ''/'' @ v"
    | v where "v \<in> set (all_vars geolocation_vars)" "p = ''geolocation'' @ ''/'' @ v"
    | v where "v \<in> set (all_vars land_cover_data_vars)" "p = ''land_cover_data'' @ ''/'' @ v"
    unfolding schema_paths_eq set_append set_map by blast
  then show ?thesis
  proof cases
    case 1
    then show ?thesis by (simp add: basename_plain gedi_vars_no_slash)
  next
    case 2
    have "basename p = v"
      unfolding 2(2) by (rule basename_grouped [OF agbd_prediction_vars_no_slash [OF 2(1)]])
    then show ?thesis using 2(1) by blast
  next
    case 3
    have "basename p = v"
      unfolding 3(2) by (rule basename_grouped [OF geolocation_vars_no_slash [OF 3(1)]])
    then show ?thesis using 3(1) by blast
  next
    case 4
    have "basename p = v"
      unfolding 4(2) by (rule basename_grouped [OF land_cover_data_vars_no_slash [OF 4(1)]])
    then show ?thesis using 4(1) by blast
  qed
qed

lemma agbd_se_only_top_level:
  "''agbd_se'' \<notin> set (all_vars agbd_prediction_vars) \<union> set (all_vars geolocation_vars)
      \<union> set (all_vars land_cover_data_vars)"
  unfolding set_all_vars
  by (simp add: agbd_prediction_vars_def geolocation_vars_def land_cover_data_vars_def)

lemma agbd_se_in_gedi_vars: "''agbd_se'' \<in> set (all_vars gedi_vars)"
  unfolding set_all_vars by (simp add: gedi_vars_def)

lemma sparse_source_dataset:
  "(hdf_dataset sparse_source (''BEAM0000'' @ ''/'' @ p) \<noteq> None)
    = (p \<in> set schema_paths \<and> p \<noteq> ''agbd_se'')"
  unfolding sparse_source_def hdf.select_convs map_of_beam_group by auto

lemma sparse_source_names:
  "column_names (assemble sparse_source ''BEAM0000'')
    = map basename (filter (\<lambda>p. p \<noteq> ''agbd_se'') schema_paths)"
  unfolding column_names_assemble sparse_source_dataset
  by (rule arg_cong [where f = "map basename"]) (rule filter_cong, auto)

lemma sparse_source_has_column:
  "(c \<in> set (column_names (assemble sparse_source ''BEAM0000'')))
    = (c \<in> set (map basename schema_paths) \<and> c \<noteq> ''agbd_se'')"
proof
  assume "c \<in> set (column_names (assemble sparse_source ''BEAM0000''))"
  then obtain p where p: "p \<in> set schema_paths" "p \<noteq> ''agbd_se''" "c = basename p"
    unfolding sparse_source_names by auto
  from basename_in_schema_paths [OF p(1)] p(2,3) agbd_se_only_top_level
  have "c \<noteq> ''agbd_se''" by auto
  with p show "c \<in> set (map basename schema_paths) \<and> c \<noteq> ''agbd_se''" by auto
next
  assume a: "c \<in> set (map basename schema_paths) \<and> c \<noteq> ''agbd_se''"
  then obtain p where p: "p \<in> set schema_paths" "c = basename p" by auto
  have "basename ''agbd_se'' = ''agbd_se''"
    by (rule basename_plain [OF gedi_vars_no_slash [OF agbd_se_in_gedi_vars]])
  with a p have "p \<noteq> ''agbd_se''" by auto
  with p show "c \<in> set (column_names (assemble sparse_source ''BEAM0000''))"
    unfolding sparse_source_names by auto
qed

lemma sparse_source_absent:
  "filter (\<lambda>c. c \<notin> set (column_names (assemble sparse_source ''BEAM0000''))) filled_vars_float
    = [''agbd_se'']"
proof -
  have "filter (\<lambda>c. c \<notin> set (column_names (assemble sparse_source ''BEAM0000''))) filled_vars_float
    = filter (\<lambda>c. c = ''agbd_se'') filled_vars_float"
  proof (rule filter_cong [OF refl])
    fix c assume "c \<in> set filled_vars_float"
    then have "c \<in> set (map basename schema_paths)"
      using fill_lists_in_columns unfolding basename_schema_paths by blast
    then show "(c \<notin> set (column_names (assemble sparse_source ''BEAM0000''))) = (c = ''agbd_se'')"
      unfolding sparse_source_has_column by simp
  qed
  also have "\<dots> = [''agbd_se'']"
    by (simp add: filled_vars_float_def)
  finally show ?thesis .
qed

text \<open>
  C3 (as amended). A path that is absent from the source adds no column: assembly raises
  nothing, and the table holds exactly the columns of the paths the source has (the
  column is left out, not filled with missing values). Cleaning and filtering then go
  through exactly when every column of \<open>filled_vars_float\<close> and \<open>filled_vars_byte\<close> and
  both coordinate columns are in the table; when a column of \<open>filled_vars_float\<close> is not,
  the cleaning step raises \<^verbatim>\<open>KeyError\<close> with the absent columns and the beam's
  table is never written.
\<close>

theorem absent_path_outcome:
  "column_names (assemble fh k)
      = map basename (filter (\<lambda>p. hdf_dataset fh (k @ ''/'' @ p) \<noteq> None) schema_paths)
   \<and> ((\<exists>df. and_then (sentinel_clean (assemble fh k)) filter_rows = Inr df) =
       (set filled_vars_float \<union> set filled_vars_byte \<union> {''lat_lowestmode'', ''lon_lowestmode''}
         \<subseteq> set (column_names (assemble fh k))))
   \<and> (\<not> set filled_vars_float \<subseteq> set (column_names (assemble fh k)) \<longrightarrow>
       beam_table derived fh k =
         Inl (KeyError (filter (\<lambda>c. c \<notin> set (column_names (assemble fh k))) filled_vars_float)))"
  using column_names_assemble [of fh k] clean_filter_ok_iff [of "assemble fh k"]
    beam_table_clean_error [of fh k derived]
  by blast

theorem absent_path_outcome_witness:
  "hdf_dataset sparse_source (''BEAM0000'' @ ''/'' @ ''agbd_se'') = None
   \<and> \<not> set filled_vars_float \<subseteq> set (column_names (assemble sparse_source ''BEAM0000''))
   \<and> beam_table sample_breakdown sparse_source ''BEAM0000'' = Inl (KeyError [''agbd_se''])"
proof -
  have a: "hdf_dataset sparse_source (''BEAM0000'' @ ''/'' @ ''agbd_se'') = None"
    using sparse_source_dataset [of "''agbd_se''"] by blast
  have "''agbd_se'' \<in> set filled_vars_float" by (simp add: filled_vars_float_def)
  moreover have "''agbd_se'' \<notin> set (column_names (assemble sparse_source ''BEAM0000''))"
    unfolding sparse_source_has_column by simp
  ultimately have b: "\<not> set filled_vars_float \<subseteq> set (column_names (assemble sparse_source ''BEAM0000''))"
    by blast
  from absent_path_outcome [of sparse_source "''BEAM0000''" sample_breakdown] b
  have "beam_table sample_breakdown sparse_source ''BEAM0000'' = Inl (KeyError [''agbd_se''])"
    unfolding sparse_source_absent by blast
  with a b show ?thesis by blast
qed

text \<open>
  C3 as stated fails: \<open>sparse_source\<close> lacks the schema path \<open>agbd_se\<close>, a column of
  \<open>filled_vars_float\<close>, and \<open>write_csv\<close> ends with \<^verbatim>\<open>KeyError\<close> after announcing the
  beam, with nothing written.
\<close>

theorem absent_fill_column_counterexample:
  "''agbd_se'' \<in> set schema_paths
   \<and> hdf_dataset sparse_source ''BEAM0000/agbd_se'' = None
   \<and> write_csv sample_breakdown sparse_source \<lparr>csv_lines = [], printed = []\<rparr>
      = (\<lparr>csv_lines = [], printed = [[CHR 0x09, CHR '' ''] @ ''BEAM0000'']\<rparr>,
         Some (KeyError [''agbd_se'']))"
proof -
  have a: "''agbd_se'' \<in> set schema_paths"
    by (rule gedi_vars_in_schema_paths [OF agbd_se_in_gedi_vars])
  have "hdf_dataset sparse_source (''BEAM0000'' @ ''/'' @ ''agbd_se'') = None"
    using sparse_source_dataset [of "''agbd_se''"] by blast
  then have b: "hdf_dataset sparse_source ''BEAM0000/agbd_se'' = None" by simp
  have "''agbd_se'' \<in> set filled_vars_float" by (simp add: filled_vars_float_def)
  moreover have "''agbd_se'' \<notin> set (column_names (assemble sparse_source ''BEAM0000''))"
    unfolding sparse_source_has_column by simp
  ultimately have "\<not> set filled_vars_float \<subseteq> set (column_names (assemble sparse_source ''BEAM0000''))"
    by blast
  then have e: "beam_table sample_breakdown sparse_source ''BEAM0000'' = Inl (KeyError [''agbd_se''])"
    using beam_table_clean_error [of sparse_source "''BEAM0000''" sample_breakdown]
    unfolding sparse_source_absent by blast
  have k: "hdf_keys sparse_source = [''BEAM0000'']" by (simp add: sparse_source_def)
  have s: "startswith ''BEAM0000'' ''BEAM''" by (simp add: startswith_def)
  have c: "write_csv sample_breakdown sparse_source \<lparr>csv_lines = [], printed = []\<rparr>
      = (\<lparr>csv_lines = [], printed = [[CHR 0x09, CHR '' ''] @ ''BEAM0000'']\<rparr>,
         Some (KeyError [''agbd_se'']))"
    unfolding write_csv_def k using write_csv_loop_first_error [OF s e] by simp
  from a b c show ?thesis by blast
qed

section \<open>Complete beams, and a sentinel in a coordinate column\<close>

lemma assemble_complete:
  assumes "\<And>p. p \<in> set schema_paths \<Longrightarrow> hdf_dataset fh (k @ ''/'' @ p) = Some (f p)"
  shows "assemble fh k = map (\<lambda>p. (basename p, f p)) schema_paths"
proof -
  have one: "fetch fh k p = [(basename p, f p)]" if "p \<in> set schema_paths" for p
    using assms [OF that] by (simp add: fetch_def)
  have "concat (map (fetch fh k) ps) = map (\<lambda>p. (basename p, f p)) ps"
    if "set ps \<subseteq> set schema_paths" for ps
    using that by (induction ps) (simp_all add: one)
  then show ?thesis by (simp add: assemble_eq)
qed

lemma map_of_self_keys: "n \<in> set xs \<Longrightarrow> map_of (map (\<lambda>p. (p, f p)) xs) n = Some (f n)"
  by (induction xs) auto

lemma map_of_assemble_top:
  assumes "\<And>p. p \<in> set schema_paths \<Longrightarrow> hdf_dataset fh (k @ ''/'' @ p) = Some (f p)"
    and "n \<in> set (all_vars gedi_vars)"
  shows "map_of (assemble fh k) n = Some (f n)"
proof -
  obtain rest where r: "schema_paths = all_vars gedi_vars @ rest"
    unfolding schema_paths_eq by blast
  have e: "map (\<lambda>p. (basename p, f p)) (all_vars gedi_vars) = map (\<lambda>p. (p, f p)) (all_vars gedi_vars)"
    by (rule map_cong [OF refl]) (simp add: basename_plain gedi_vars_no_slash)
  have a: "assemble fh k = map (\<lambda>p. (basename p, f p)) schema_paths"
    using assms(1) by (rule assemble_complete)
  have "map_of (assemble fh k) n =
      (map_of (map (\<lambda>p. (basename p, f p)) rest) ++ map_of (map (\<lambda>p. (p, f p)) (all_vars gedi_vars))) n"
    unfolding a r map_append e map_of_append by (rule refl)
  then show ?thesis
    using map_of_self_keys [OF assms(2), of f] by (simp add: map_add_def)
qed

lemma schema_paths_nonempty: "schema_paths \<noteq> []"
  using gedi_vars_in_schema_paths [OF agbd_se_in_gedi_vars] by auto

lemma nrows_map_paths:
  "ps \<noteq> [] \<Longrightarrow> nrows (map (\<lambda>p. (g p, f p)) ps) = length (f (hd ps))"
  by (cases ps) (simp_all add: nrows_def)

lemma assemble_uniform:
  assumes "\<And>p. p \<in> set schema_paths \<Longrightarrow> hdf_dataset fh (k @ ''/'' @ p) = Some (f p)"
    and "\<And>p. length (f p) = n"
  shows "rectangular (assemble fh k) \<and> nrows (assemble fh k) = n"
proof -
  have a: "assemble fh k = map (\<lambda>p. (basename p, f p)) schema_paths"
    using assms(1) by (rule assemble_complete)
  have "nrows (assemble fh k) = n"
    unfolding a nrows_map_paths [OF schema_paths_nonempty] by (rule assms(2))
  moreover from this have "rectangular (assemble fh k)"
    unfolding rectangular_iff by (auto simp: a assms(2))
  ultimately show ?thesis by blast
qed

lemma uniform_rectangular:
  "(\<And>c. c \<in> set df \<Longrightarrow> length (snd c) = n) \<Longrightarrow> rectangular df"
  by (cases df) (simp_all add: rectangular_iff nrows_def)

text \<open>
  A beam whose datasets all have one length, the number of its shots, assembles to a
  table whose columns have that length, and cleaning keeps it so: the tables the filter
  receives are rectangular.
\<close>

lemma assemble_rectangular:
  assumes "\<And>p xs. p \<in> set schema_paths \<Longrightarrow> hdf_dataset fh (k @ ''/'' @ p) = Some xs \<Longrightarrow> length xs = n"
  shows "rectangular (assemble fh k)"
proof (rule uniform_rectangular)
  fix c assume "c \<in> set (assemble fh k)"
  then obtain p where p: "p \<in> set schema_paths" and c: "c \<in> set (fetch fh k p)"
    unfolding assemble_eq by auto
  from c obtain xs where "hdf_dataset fh (k @ ''/'' @ p) = Some xs" and "snd c = xs"
    by (cases "hdf_dataset fh (k @ ''/'' @ p)") (auto simp: fetch_def)
  with assms [OF p] show "length (snd c) = n" by simp
qed

lemma sentinel_clean_shape:
  assumes "sentinel_clean df = Inr df'"
  shows "nrows df' = nrows df \<and> (rectangular df \<longrightarrow> rectangular df')"
proof -
  from assms have e: "df' = map (\<lambda>c. (fst c,
              if fst c \<in> set filled_vars_float then replace_values (- 9999) (snd c)
              else if fst c \<in> set filled_vars_byte then replace_values 255 (snd c)
              else snd c)) df"
    by (auto simp: sentinel_clean_eq split: if_splits)
  have n: "nrows df' = nrows df" unfolding e by (rule nrows_map_cols) simp
  show ?thesis using n by (auto simp: rectangular_iff e)
qed

lemma scenario_A_dataset:
  "p \<in> set schema_paths \<Longrightarrow>
    hdf_dataset scenario_A (''BEAM0000'' @ ''/'' @ p) = Some (scenario_A_values p)"
  unfolding scenario_A_def hdf.select_convs map_of_beam_group by simp

lemma scenario_A_length: "length (scenario_A_values p) = 2"
  by (simp add: scenario_A_values_def)

lemma complete_beam_names:
  assumes "\<And>p. p \<in> set schema_paths \<Longrightarrow> hdf_dataset fh (k @ ''/'' @ p) = Some (f p)"
  shows "set filled_vars_float \<union> set filled_vars_byte
        \<union> {''lat_lowestmode'', ''lon_lowestmode'', ''shot_number''}
      \<subseteq> set (column_names (assemble fh k))"
proof -
  have "\<forall>p \<in> set schema_paths. hdf_dataset fh (k @ ''/'' @ p) \<noteq> None"
    using assms by simp
  then have n: "column_names (assemble fh k) =
    all_vars gedi_vars @ all_vars agbd_prediction_vars @ all_vars geolocation_vars
    @ all_vars land_cover_data_vars"
    by (rule column_names_assemble_complete)
  have "{''lat_lowestmode'', ''lon_lowestmode'', ''shot_number''} \<subseteq> set (all_vars gedi_vars)"
    using key_columns_in_gedi_vars by blast
  then show ?thesis
    unfolding n using fill_lists_in_columns by auto
qed

lemma agbd_filled:
  "''agbd'' \<in> set filled_vars_float" "''agbd'' \<notin> set filled_vars_byte"
proof -
  show a: "''agbd'' \<in> set filled_vars_float" by (simp add: filled_vars_float_def)
  show "''agbd'' \<notin> set filled_vars_byte" using a by (rule fill_lists_disjoint)
qed

lemma rows_two: "nrows df = 2 \<Longrightarrow> rows df = [row_at df 0, row_at df 1]"
  by (simp add: rows_def numeral_2_eq_2)

lemma scenario_A_pipeline:
  obtains df where
    "and_then (sentinel_clean (assemble scenario_A ''BEAM0000'')) filter_rows = Inr df"
    and "map coordinates_and_agbd (rows df) =
        [(Some (Flt 12.5), Some (Flt 45), Some (Flt 100)),
         (Some (Flt (- 9999)), Some (Flt 45), Some NaN)]"
    and "''shot_number'' \<in> set (column_names df)"
proof -
  let ?t = "assemble scenario_A ''BEAM0000''"
  note data = scenario_A_dataset
  have names: "set filled_vars_float \<union> set filled_vars_byte
        \<union> {''lat_lowestmode'', ''lon_lowestmode'', ''shot_number''} \<subseteq> set (column_names ?t)"
    using data by (rule complete_beam_names)
  have lat_in: "''lat_lowestmode'' \<in> set (column_names ?t)"
    and lon_in: "''lon_lowestmode'' \<in> set (column_names ?t)"
    using names by blast+
  have "set filled_vars_float \<union> set filled_vars_byte \<union> {''lat_lowestmode'', ''lon_lowestmode''}
      \<subseteq> set (column_names ?t)"
    using names by blast
  then have "\<exists>df. and_then (sentinel_clean ?t) filter_rows = Inr df"
    unfolding clean_filter_ok_iff .
  then obtain c df where c: "sentinel_clean ?t = Inr c" and df: "filter_rows c = Inr df"
    by (auto simp: and_then_def split: sum.splits)
  have shape: "rectangular ?t \<and> nrows ?t = 2"
    using data scenario_A_length by (rule assemble_uniform)
  have c_rect: "rectangular c" and c_n: "nrows c = 2"
    using sentinel_clean_shape [OF c] shape by auto
  have c_names: "column_names c = column_names ?t" using c by (rule sentinel_clean_names)
  have top: "map_of ?t n = Some (scenario_A_values n)" if "n \<in> set (all_vars gedi_vars)" for n
    using data that by (rule map_of_assemble_top)
  have lat: "map_of c ''lat_lowestmode'' = Some [Flt 12.5, Flt (- 9999)]"
    unfolding map_of_sentinel_clean [OF c] top [OF key_columns_in_gedi_vars(1)]
    using lat_lon_not_filled by (simp add: scenario_A_values_def)
  have lon: "map_of c ''lon_lowestmode'' = Some [Flt 45, Flt 45]"
    unfolding map_of_sentinel_clean [OF c] top [OF key_columns_in_gedi_vars(2)]
    using lat_lon_not_filled by (simp add: scenario_A_values_def)
  have agbd: "map_of c ''agbd'' = Some [Flt 100, NaN]"
    unfolding map_of_sentinel_clean [OF c] top [OF key_columns_in_gedi_vars(4)]
    using agbd_filled by (simp add: scenario_A_values_def replace_values_def integer_column_def)
  have rows_c: "rows c = [row_at c 0, row_at c 1]" using c_n by (rule rows_two)
  from filter_rows_rows [OF c_rect, unfolded c_names, OF lat_in lon_in] df
  have rows_df: "rows df =
      filter (\<lambda>r. holds_value r ''lat_lowestmode'' \<and> holds_value r ''lon_lowestmode'') (rows c)"
    by auto
  have "rows df = [row_at c 0, row_at c 1]"
    unfolding rows_df rows_c by (simp add: holds_value_def map_of_row_at lat lon notnull_def)
  then have B: "map coordinates_and_agbd (rows df) =
        [(Some (Flt 12.5), Some (Flt 45), Some (Flt 100)),
         (Some (Flt (- 9999)), Some (Flt 45), Some NaN)]"
    by (simp add: coordinates_and_agbd_def map_of_row_at lat lon agbd)
  have A: "and_then (sentinel_clean ?t) filter_rows = Inr df"
    by (simp add: and_then_def c df)
  have C: "''shot_number'' \<in> set (column_names df)"
    unfolding filter_rows_names [OF df] c_names using names by blast
  from A B C show thesis by (rule that)
qed


lemma nrows_append: "df \<noteq> [] \<Longrightarrow> nrows (df @ extra) = nrows df"
  by (cases df) (simp_all add: nrows_def)

lemma beam_keys_scenario_A: "beam_keys scenario_A = [''BEAM0000'']"
  by (simp add: beam_keys_def scenario_A_def startswith_def)

lemma scenario_A_csv:
  "\<exists>out'. write_csv derived scenario_A \<lparr>csv_lines = [], printed = []\<rparr> = (out', None)
    \<and> length (filter (\<lambda>l. \<not> is_header l) (csv_lines out')) = 2"
proof -
  obtain df where
    p: "and_then (sentinel_clean (assemble scenario_A ''BEAM0000'')) filter_rows = Inr df"
    and r: "map coordinates_and_agbd (rows df) =
        [(Some (Flt 12.5), Some (Flt 45), Some (Flt 100)),
         (Some (Flt (- 9999)), Some (Flt 45), Some NaN)]"
    and s: "''shot_number'' \<in> set (column_names df)"
    by (rule scenario_A_pipeline)
  have "length (map coordinates_and_agbd (rows df)) = 2" unfolding r by simp
  then have n: "nrows df = 2" by simp
  from s have ne: "df \<noteq> []" by (auto simp: column_names_def)
  from s obtain ids where ids: "map_of df ''shot_number'' = Some ids"
    using map_of_in_names [of df "''shot_number''"] by auto
  let ?aug = "df @ map (\<lambda>d. (fst d, map (snd d) ids)) derived"
  have t: "beam_table derived scenario_A ''BEAM0000'' = Inr ?aug"
    unfolding beam_table_def p by (simp add: and_then_def add_shot_number_breakdown_def ids)
  have "map (beam_table derived scenario_A) (filter (\<lambda>k. startswith k ''BEAM'') (hdf_keys scenario_A))
      = map Inr [?aug]"
    using beam_keys_scenario_A t by (simp add: beam_keys_def)
  from write_csv_loop_tables [OF this, of True "\<lparr>csv_lines = [], printed = []\<rparr>"]
  obtain out' where run: "write_csv derived scenario_A \<lparr>csv_lines = [], printed = []\<rparr> = (out', None)"
    and lines: "csv_lines out' = Header (column_names ?aug) # data_lines ?aug"
    by (auto simp: write_csv_def)
  have "filter (\<lambda>l. \<not> is_header l) (data_lines ?aug) = data_lines ?aug"
    by (simp add: data_lines_def filter_id_conv)
  then have "length (filter (\<lambda>l. \<not> is_header l) (csv_lines out')) = nrows ?aug"
    unfolding lines by (simp add: data_lines_def)
  also have "\<dots> = 2" using nrows_append [OF ne] n by simp
  finally have "length (filter (\<lambda>l. \<not> is_header l) (csv_lines out')) = 2" .
  with run show ?thesis by (intro exI [where x = out'] conjI)
qed

text \<open>
  C1 (as amended). In scenario A the pipeline (assemble, then sentinel-clean, then
  filter) keeps both shots: the rows \<open>(12.5, 45.0, 100.0)\<close> and
  \<open>(-9999, 45.0, missing)\<close>, and \<open>write_csv\<close> writes two data rows. Filtering runs after
  cleaning, but cleaning replaces \<open>-9999\<close> only in the columns of \<open>filled_vars_float\<close>;
  the coordinate columns are not among them, so the latitude \<open>-9999\<close> is a value like any
  other when the filter runs. Only the \<open>agbd\<close> of the second shot becomes missing.
\<close>

theorem scenario_A_rows:
  "(\<exists>df. and_then (sentinel_clean (assemble scenario_A ''BEAM0000'')) filter_rows = Inr df
      \<and> map coordinates_and_agbd (rows df) =
          [(Some (Flt 12.5), Some (Flt 45), Some (Flt 100)),
           (Some (Flt (- 9999)), Some (Flt 45), Some NaN)])
   \<and> (\<exists>out'. write_csv derived scenario_A \<lparr>csv_lines = [], printed = []\<rparr> = (out', None)
      \<and> length (filter (\<lambda>l. \<not> is_header l) (csv_lines out')) = 2)
   \<and> ''lat_lowestmode'' \<notin> set filled_vars_float
   \<and> ''lon_lowestmode'' \<notin> set filled_vars_float"
proof (intro conjI)
  obtain df where
    a: "and_then (sentinel_clean (assemble scenario_A ''BEAM0000'')) filter_rows = Inr df"
    and b: "map coordinates_and_agbd (rows df) =
        [(Some (Flt 12.5), Some (Flt 45), Some (Flt 100)),
         (Some (Flt (- 9999)), Some (Flt 45), Some NaN)]"
    by (rule scenario_A_pipeline)
  from a b show "\<exists>df. and_then (sentinel_clean (assemble scenario_A ''BEAM0000'')) filter_rows = Inr df
      \<and> map coordinates_and_agbd (rows df) =
          [(Some (Flt 12.5), Some (Flt 45), Some (Flt 100)),
           (Some (Flt (- 9999)), Some (Flt 45), Some NaN)]"
    by (intro exI [where x = df] conjI)
  show "\<exists>out'. write_csv derived scenario_A \<lparr>csv_lines = [], printed = []\<rparr> = (out', None)
      \<and> length (filter (\<lambda>l. \<not> is_header l) (csv_lines out')) = 2"
    by (rule scenario_A_csv)
  show "''lat_lowestmode'' \<notin> set filled_vars_float" by (rule lat_lon_not_filled(1))
  show "''lon_lowestmode'' \<notin> set filled_vars_float" by (rule lat_lon_not_filled(3))
qed

theorem scenario_A_rows_witness:
  "\<exists>out'. write_csv sample_breakdown scenario_A \<lparr>csv_lines = [], printed = []\<rparr> = (out', None)
      \<and> length (filter (\<lambda>l. \<not> is_header l) (csv_lines out')) = 2"
  using scenario_A_rows [of sample_breakdown] by (elim conjE)

text \<open>
  C1 as stated fails: the source holds the three columns of the scenario, and the table
  after the filter does not consist of the single row \<open>(12.5, 45.0, 100.0)\<close>.
\<close>

theorem scenario_A_one_row_counterexample:
  "hdf_dataset scenario_A ''BEAM0000/lat_lowestmode'' = Some [Flt 12.5, Flt (- 9999)]
   \<and> hdf_dataset scenario_A ''BEAM0000/lon_lowestmode'' = Some [Flt 45, Flt 45]
   \<and> hdf_dataset scenario_A ''BEAM0000/agbd'' = Some [Flt 100, Flt (- 9999)]
   \<and> \<not> (\<exists>df. and_then (sentinel_clean (assemble scenario_A ''BEAM0000'')) filter_rows = Inr df
      \<and> map coordinates_and_agbd (rows df) = [(Some (Flt 12.5), Some (Flt 45), Some (Flt 100))])"
proof (intro conjI)
  show "hdf_dataset scenario_A ''BEAM0000/lat_lowestmode'' = Some [Flt 12.5, Flt (- 9999)]"
    using scenario_A_dataset [OF gedi_vars_in_schema_paths [OF key_columns_in_gedi_vars(1)]]
    by (simp add: scenario_A_values_def)
  show "hdf_dataset scenario_A ''BEAM0000/lon_lowestmode'' = Some [Flt 45, Flt 45]"
    using scenario_A_dataset [OF gedi_vars_in_schema_paths [OF key_columns_in_gedi_vars(2)]]
    by (simp add: scenario_A_values_def)
  show "hdf_dataset scenario_A ''BEAM0000/agbd'' = Some [Flt 100, Flt (- 9999)]"
    using scenario_A_dataset [OF gedi_vars_in_schema_paths [OF key_columns_in_gedi_vars(4)]]
    by (simp add: scenario_A_values_def)
  show "\<not> (\<exists>df. and_then (sentinel_clean (assemble scenario_A ''BEAM0000'')) filter_rows = Inr df
      \<and> map coordinates_and_agbd (rows df) = [(Some (Flt 12.5), Some (Flt 45), Some (Flt 100))])"
  proof
    assume "\<exists>df. and_then (sentinel_clean (assemble scenario_A ''BEAM0000'')) filter_rows = Inr df
      \<and> map coordinates_and_agbd (rows df) = [(Some (Flt 12.5), Some (Flt 45), Some (Flt 100))]"
    then show False
    proof (elim exE conjE)
      fix df
      assume a: "and_then (sentinel_clean (assemble scenario_A ''BEAM0000'')) filter_rows = Inr df"
        and b: "map coordinates_and_agbd (rows df) = [(Some (Flt 12.5), Some (Flt 45), Some (Flt 100))]"
      obtain df' where
        a': "and_then (sentinel_clean (assemble scenario_A ''BEAM0000'')) filter_rows = Inr df'"
        and b': "map coordinates_and_agbd (rows df') =
          [(Some (Flt 12.5), Some (Flt 45), Some (Flt 100)),
           (Some (Flt (- 9999)), Some (Flt 45), Some NaN)]"
        by (rule scenario_A_pipeline)
      from a a' have "df' = df" by simp
      with b b' show False by simp
    qed
  qed
qed

section \<open>Properties of the output file\<close>

lemma map_of_beam_group_other:
  "length k = length k' \<Longrightarrow> k \<noteq> k' \<Longrightarrow> map_of (beam_group k ps f) (k' @ ''/'' @ p) = None"
  by (auto simp: map_of_eq_None_iff beam_group_def)

lemma two_beam_source_first:
  "p \<in> set schema_paths \<Longrightarrow>
    hdf_dataset two_beam_source (''BEAM0000'' @ ''/'' @ p) = Some [Flt 1, Flt 2]"
  unfolding two_beam_source_def hdf.select_convs map_of_append map_add_def map_of_beam_group
  by simp

lemma two_beam_source_second:
  "p \<in> set schema_paths \<Longrightarrow>
    hdf_dataset two_beam_source (''BEAM0001'' @ ''/'' @ p) = Some [Flt 3]"
proof -
  have "map_of (beam_group ''BEAM0000'' schema_paths (\<lambda>p. [Flt 1, Flt 2])) (''BEAM0001'' @ ''/'' @ p) = None"
    by (rule map_of_beam_group_other) simp_all
  then show "p \<in> set schema_paths \<Longrightarrow> ?thesis"
    unfolding two_beam_source_def hdf.select_convs map_of_append map_add_def map_of_beam_group
    by simp
qed

lemma complete_beam_table:
  assumes "\<And>p. p \<in> set schema_paths \<Longrightarrow> hdf_dataset fh (k @ ''/'' @ p) = Some (f p)"
  obtains df where "beam_table derived fh k = Inr df"
  using complete_beam_names [of fh k f, OF assms] beam_table_ok_iff [of derived fh k] by blast

lemma beam_keys_two_beam_source: "beam_keys two_beam_source = [''BEAM0000'', ''BEAM0001'']"
  by (simp add: beam_keys_def two_beam_source_def startswith_def)

lemma beam_keys_no_beam_source: "beam_keys no_beam_source = []"
  by (simp add: beam_keys_def no_beam_source_def startswith_def)

lemma takeWhile_tables: "\<exists>dfs. takeWhile (\<lambda>t. \<not> isl t) ts = map Inr (dfs :: dataframe list)"
proof (induction ts)
  case Nil
  then show ?case by simp
next
  case (Cons t ts)
  then obtain dfs where d: "takeWhile (\<lambda>t. \<not> isl t) ts = map Inr dfs" by blast
  show ?case
  proof (cases t)
    case (Inl e)
    then show ?thesis by simp
  next
    case (Inr df)
    then have "takeWhile (\<lambda>t. \<not> isl t) (t # ts) = map Inr (df # dfs)" by (simp add: d)
    then show ?thesis by blast
  qed
qed

lemma write_csv_loop_until_error:
  "takeWhile (\<lambda>t. \<not> isl t) (map (beam_table derived fh) (filter (\<lambda>k. startswith k ''BEAM'') ks))
      = map Inr dfs \<Longrightarrow>
    \<exists>out'. write_csv_loop derived fh ks is_first out =
        (out', case dropWhile (\<lambda>t. \<not> isl t)
                 (map (beam_table derived fh) (filter (\<lambda>k. startswith k ''BEAM'') ks)) of
               [] \<Rightarrow> None | t # _ \<Rightarrow> Some (projl t))
      \<and> csv_lines out' =
          csv_lines out
          @ (if is_first then (case dfs of [] \<Rightarrow> [] | df # _ \<Rightarrow> [Header (column_names df)]) else [])
          @ concat (map data_lines dfs)"
proof (induction ks arbitrary: is_first out dfs)
  case Nil
  then show ?case by simp
next
  case (Cons k ks)
  show ?case
  proof (cases "startswith k ''BEAM''")
    case False
    then show ?thesis using Cons.IH [of dfs is_first out] Cons.prems by simp
  next
    case True
    show ?thesis
    proof (cases "beam_table derived fh k")
      case (Inl e)
      with True Cons.prems have "dfs = []" by simp
      then show ?thesis using True Inl by (simp add: Let_def)
    next
      case (Inr df)
      with True Cons.prems obtain rest where dfs: "dfs = df # rest"
        and rest: "takeWhile (\<lambda>t. \<not> isl t)
            (map (beam_table derived fh) (filter (\<lambda>k. startswith k ''BEAM'') ks)) = map Inr rest"
        by (cases dfs) auto
      let ?out1 = "out\<lparr>printed := printed out @ [[CHR 0x09, CHR '' ''] @ k]\<rparr>"
      let ?out2 = "?out1\<lparr>csv_lines := csv_lines ?out1 @ to_csv df is_first\<rparr>"
      from Cons.IH [OF rest, of False ?out2] obtain out' where
        run: "write_csv_loop derived fh ks False ?out2 =
          (out', case dropWhile (\<lambda>t. \<not> isl t)
                 (map (beam_table derived fh) (filter (\<lambda>k. startswith k ''BEAM'') ks)) of
               [] \<Rightarrow> None | t # _ \<Rightarrow> Some (projl t))"
        and lines: "csv_lines out' = csv_lines ?out2 @ concat (map data_lines rest)"
        by auto
      have "write_csv_loop derived fh (k # ks) is_first out =
          (out', case dropWhile (\<lambda>t. \<not> isl t)
                 (map (beam_table derived fh) (filter (\<lambda>k. startswith k ''BEAM'') (k # ks))) of
               [] \<Rightarrow> None | t # _ \<Rightarrow> Some (projl t))"
        using True Inr run by (simp add: Let_def)
      moreover have "csv_lines out' =
          csv_lines out
          @ (if is_first then (case dfs of [] \<Rightarrow> [] | df # _ \<Rightarrow> [Header (column_names df)]) else [])
          @ concat (map data_lines dfs)"
        using lines by (simp add: dfs to_csv_eq)
      ultimately show ?thesis by blast
    qed
  qed
qed

lemma no_header_in_data_lines: "filter is_header (concat (map data_lines xs)) = []"
  by (induction xs) (auto simp: data_lines_def filter_empty_conv)

lemma write_csv_first_beam:
  assumes "beam_keys fh = k # ks" and "beam_table derived fh k = Inr df"
  obtains out' dfs where
    "write_csv derived fh \<lparr>csv_lines = [], printed = ps\<rparr> =
      (out', case dropWhile (\<lambda>t. \<not> isl t) (map (beam_table derived fh) ks) of
               [] \<Rightarrow> None | t # _ \<Rightarrow> Some (projl t))"
    and "takeWhile (\<lambda>t. \<not> isl t) (map (beam_table derived fh) ks) = map Inr dfs"
    and "csv_lines out' = Header (column_names df) # concat (map data_lines (df # dfs))"
    and "filter is_header (csv_lines out') = [Header (column_names df)]"
proof -
  obtain dfs where d: "takeWhile (\<lambda>t. \<not> isl t) (map (beam_table derived fh) ks) = map Inr dfs"
    using takeWhile_tables by blast
  have f: "filter (\<lambda>k. startswith k ''BEAM'') (hdf_keys fh) = k # ks"
    using assms(1) by (simp add: beam_keys_def)
  have t: "takeWhile (\<lambda>t. \<not> isl t)
      (map (beam_table derived fh) (filter (\<lambda>k. startswith k ''BEAM'') (hdf_keys fh)))
      = map Inr (df # dfs)"
    unfolding f using assms(2) d by simp
  from write_csv_loop_until_error [OF t, of True "\<lparr>csv_lines = [], printed = ps\<rparr>"]
  obtain out' where
    run: "write_csv derived fh \<lparr>csv_lines = [], printed = ps\<rparr> =
      (out', case dropWhile (\<lambda>t. \<not> isl t) (map (beam_table derived fh) ks) of
               [] \<Rightarrow> None | t # _ \<Rightarrow> Some (projl t))"
    and lines: "csv_lines out' = Header (column_names df) # concat (map data_lines (df # dfs))"
    unfolding f using assms(2) by (auto simp: write_csv_def)
  have "filter is_header (csv_lines out') = [Header (column_names df)]"
    unfolding lines using no_header_in_data_lines [of "df # dfs"] by simp
  with run d lines show thesis by (rule that)
qed

lemma write_csv_first_beam_error:
  assumes "beam_keys fh = k # ks" and "beam_table derived fh k = Inl e"
  obtains out' where "write_csv derived fh \<lparr>csv_lines = [], printed = ps\<rparr> = (out', Some e)"
    and "csv_lines out' = []"
proof -
  have f: "filter (\<lambda>k. startswith k ''BEAM'') (hdf_keys fh) = k # ks"
    using assms(1) by (simp add: beam_keys_def)
  have t: "takeWhile (\<lambda>t. \<not> isl t)
      (map (beam_table derived fh) (filter (\<lambda>k. startswith k ''BEAM'') (hdf_keys fh)))
      = map Inr []"
    unfolding f using assms(2) by simp
  from write_csv_loop_until_error [OF t, of True "\<lparr>csv_lines = [], printed = ps\<rparr>"]
  obtain out' where "write_csv derived fh \<lparr>csv_lines = [], printed = ps\<rparr> = (out', Some e)"
    and "csv_lines out' = []"
    unfolding f using assms(2) by (auto simp: write_csv_def)
  then show thesis by (rule that)
qed

lemma beam_table_no_dataset:
  assumes "\<And>p. hdf_dataset fh (k @ ''/'' @ p) = None"
  shows "beam_table derived fh k = Inl (KeyError filled_vars_float)"
proof -
  have "fetch fh k p = []" for p unfolding fetch_def assms by simp
  then have "concat (map (fetch fh k) ps) = []" for ps by (induction ps) simp_all
  then have a: "assemble fh k = []" by (simp add: assemble_eq)
  have "filled_vars_float \<noteq> []" by (simp add: filled_vars_float_def)
  then have "\<not> set filled_vars_float \<subseteq> set (column_names (assemble fh k))"
    unfolding a by (simp add: column_names_def)
  then show ?thesis
    using beam_table_clean_error [of fh k derived] unfolding a by (simp add: column_names_def)
qed

lemma second_beam_bare_source_first:
  "p \<in> set schema_paths \<Longrightarrow>
    hdf_dataset second_beam_bare_source (''BEAM0000'' @ ''/'' @ p) = Some [Flt 1, Flt 2]"
  unfolding second_beam_bare_source_def hdf.select_convs map_of_beam_group by simp

lemma second_beam_bare_source_second:
  "hdf_dataset second_beam_bare_source (''BEAM0001'' @ ''/'' @ p) = None"
  unfolding second_beam_bare_source_def hdf.select_convs
  by (rule map_of_beam_group_other) simp_all

lemma beam_keys_second_beam_bare_source:
  "beam_keys second_beam_bare_source = [''BEAM0000'', ''BEAM0001'']"
  by (simp add: beam_keys_def second_beam_bare_source_def startswith_def)

lemma beam_keys_bare_beam_source: "beam_keys bare_beam_source = [''BEAM0000'']"
  by (simp add: beam_keys_def bare_beam_source_def startswith_def)

lemma bare_beam_source_dataset: "hdf_dataset bare_beam_source p = None"
  by (simp add: bare_beam_source_def)

text \<open>
  C5 (as amended). For every source with at least one key starting with \<open>BEAM\<close> on
  which the table of the first such beam is built without error, the file holds the
  header row exactly once, as its first line, with the columns of the first processed
  beam, followed by the data rows of the beams processed: the beams in the order of the
  source's keys (other keys skipped) up to, and without, the first beam whose table
  raises, the rows of a beam in the order of its filtered table. The run completes when no
  beam raises and ends with the exception of the first beam that raises otherwise. For a
  source with no such key nothing is written, not even a header, and the run completes;
  when the table of the first beam raises nothing is written either and the run ends with
  that exception.
\<close>

theorem write_csv_header_once:
  "(beam_keys fh = k # ks \<and> beam_table derived fh k = Inr df \<longrightarrow>
      (\<exists>out' dfs.
          write_csv derived fh \<lparr>csv_lines = [], printed = ps\<rparr> =
            (out', case dropWhile (\<lambda>t. \<not> isl t) (map (beam_table derived fh) ks) of
                     [] \<Rightarrow> None | t # _ \<Rightarrow> Some (projl t))
        \<and> takeWhile (\<lambda>t. \<not> isl t) (map (beam_table derived fh) ks) = map Inr dfs
        \<and> csv_lines out' = Header (column_names df) # concat (map data_lines (df # dfs))
        \<and> filter is_header (csv_lines out') = [Header (column_names df)]))
   \<and> (beam_keys fh = [] \<longrightarrow>
      write_csv derived fh \<lparr>csv_lines = [], printed = ps\<rparr>
        = (\<lparr>csv_lines = [], printed = ps\<rparr>, None))
   \<and> (beam_keys fh = k # ks \<and> beam_table derived fh k = Inl e \<longrightarrow>
      (\<exists>out'. write_csv derived fh \<lparr>csv_lines = [], printed = ps\<rparr> = (out', Some e)
        \<and> csv_lines out' = []))"
proof (intro conjI impI)
  assume a: "beam_keys fh = k # ks \<and> beam_table derived fh k = Inr df"
  obtain out' dfs where
    "write_csv derived fh \<lparr>csv_lines = [], printed = ps\<rparr> =
      (out', case dropWhile (\<lambda>t. \<not> isl t) (map (beam_table derived fh) ks) of
               [] \<Rightarrow> None | t # _ \<Rightarrow> Some (projl t))"
    and "takeWhile (\<lambda>t. \<not> isl t) (map (beam_table derived fh) ks) = map Inr dfs"
    and "csv_lines out' = Header (column_names df) # concat (map data_lines (df # dfs))"
    and "filter is_header (csv_lines out') = [Header (column_names df)]"
    using a by (elim conjE) (rule write_csv_first_beam)
  then show "\<exists>out' dfs.
          write_csv derived fh \<lparr>csv_lines = [], printed = ps\<rparr> =
            (out', case dropWhile (\<lambda>t. \<not> isl t) (map (beam_table derived fh) ks) of
                     [] \<Rightarrow> None | t # _ \<Rightarrow> Some (projl t))
        \<and> takeWhile (\<lambda>t. \<not> isl t) (map (beam_table derived fh) ks) = map Inr dfs
        \<and> csv_lines out' = Header (column_names df) # concat (map data_lines (df # dfs))
        \<and> filter is_header (csv_lines out') = [Header (column_names df)]"
    by (intro exI [where x = out'] exI [where x = dfs] conjI)
next
  assume "beam_keys fh = []"
  then show "write_csv derived fh \<lparr>csv_lines = [], printed = ps\<rparr>
        = (\<lparr>csv_lines = [], printed = ps\<rparr>, None)"
    by (rule write_csv_no_beam)
next
  assume a: "beam_keys fh = k # ks \<and> beam_table derived fh k = Inl e"
  obtain out' where "write_csv derived fh \<lparr>csv_lines = [], printed = ps\<rparr> = (out', Some e)"
    and "csv_lines out' = []"
    using a by (elim conjE) (rule write_csv_first_beam_error)
  then show "\<exists>out'. write_csv derived fh \<lparr>csv_lines = [], printed = ps\<rparr> = (out', Some e)
        \<and> csv_lines out' = []"
    by (intro exI [where x = out'] conjI)
qed

theorem write_csv_header_once_witness:
  "(\<exists>df0 out'.
      beam_keys second_beam_bare_source = [''BEAM0000'', ''BEAM0001'']
      \<and> beam_table sample_breakdown second_beam_bare_source ''BEAM0000'' = Inr df0
      \<and> beam_table sample_breakdown second_beam_bare_source ''BEAM0001''
          = Inl (KeyError filled_vars_float)
      \<and> write_csv sample_breakdown second_beam_bare_source \<lparr>csv_lines = [], printed = []\<rparr>
          = (out', Some (KeyError filled_vars_float))
      \<and> csv_lines out' = Header (column_names df0) # data_lines df0
      \<and> filter is_header (csv_lines out') = [Header (column_names df0)])
   \<and> (\<exists>df0 df1 out'.
      beam_keys two_beam_source = [''BEAM0000'', ''BEAM0001'']
      \<and> beam_table sample_breakdown two_beam_source ''BEAM0000'' = Inr df0
      \<and> beam_table sample_breakdown two_beam_source ''BEAM0001'' = Inr df1
      \<and> write_csv sample_breakdown two_beam_source \<lparr>csv_lines = [], printed = []\<rparr> = (out', None)
      \<and> csv_lines out' = Header (column_names df0) # data_lines df0 @ data_lines df1
      \<and> filter is_header (csv_lines out') = [Header (column_names df0)])
   \<and> beam_keys no_beam_source = []
   \<and> write_csv sample_breakdown no_beam_source \<lparr>csv_lines = [], printed = []\<rparr>
        = (\<lparr>csv_lines = [], printed = []\<rparr>, None)
   \<and> (\<exists>out'.
      beam_keys bare_beam_source = [''BEAM0000'']
      \<and> beam_table sample_breakdown bare_beam_source ''BEAM0000'' = Inl (KeyError filled_vars_float)
      \<and> write_csv sample_breakdown bare_beam_source \<lparr>csv_lines = [], printed = []\<rparr>
          = (out', Some (KeyError filled_vars_float))
      \<and> csv_lines out' = [])"
proof -
  note t = write_csv_header_once [of _ _ _ sample_breakdown _ "[]"]
  \<comment> \<open>the second beam raises\<close>
  obtain df0 where a0: "beam_table sample_breakdown second_beam_bare_source ''BEAM0000'' = Inr df0"
    using second_beam_bare_source_first by (rule complete_beam_table)
  have a1: "beam_table sample_breakdown second_beam_bare_source ''BEAM0001''
      = Inl (KeyError filled_vars_float)"
    using second_beam_bare_source_second by (rule beam_table_no_dataset)
  note ak = beam_keys_second_beam_bare_source
  have ap: "beam_keys second_beam_bare_source = [''BEAM0000'', ''BEAM0001'']
      \<and> beam_table sample_breakdown second_beam_bare_source ''BEAM0000'' = Inr df0"
    using ak a0 by (intro conjI)
  have "\<exists>out' dfs.
      write_csv sample_breakdown second_beam_bare_source \<lparr>csv_lines = [], printed = []\<rparr> =
        (out', case dropWhile (\<lambda>t. \<not> isl t)
            (map (beam_table sample_breakdown second_beam_bare_source) [''BEAM0001'']) of
          [] \<Rightarrow> None | t # _ \<Rightarrow> Some (projl t))
      \<and> takeWhile (\<lambda>t. \<not> isl t)
          (map (beam_table sample_breakdown second_beam_bare_source) [''BEAM0001'']) = map Inr dfs
      \<and> csv_lines out' = Header (column_names df0) # concat (map data_lines (df0 # dfs))
      \<and> filter is_header (csv_lines out') = [Header (column_names df0)]"
    by (rule t [of second_beam_bare_source "''BEAM0000''" "[''BEAM0001'']" df0,
          THEN conjunct1, THEN mp, OF ap])
  then obtain out' dfs where
    ar: "write_csv sample_breakdown second_beam_bare_source \<lparr>csv_lines = [], printed = []\<rparr> =
        (out', case dropWhile (\<lambda>t. \<not> isl t)
            (map (beam_table sample_breakdown second_beam_bare_source) [''BEAM0001'']) of
          [] \<Rightarrow> None | t # _ \<Rightarrow> Some (projl t))"
    and ad: "takeWhile (\<lambda>t. \<not> isl t)
          (map (beam_table sample_breakdown second_beam_bare_source) [''BEAM0001'']) = map Inr dfs"
    and al: "csv_lines out' = Header (column_names df0) # concat (map data_lines (df0 # dfs))"
    and ah: "filter is_header (csv_lines out') = [Header (column_names df0)]"
    by (elim exE conjE)
  from ad have "dfs = []" by (simp add: a1)
  with al have al': "csv_lines out' = Header (column_names df0) # data_lines df0" by simp
  from ar have ar': "write_csv sample_breakdown second_beam_bare_source \<lparr>csv_lines = [], printed = []\<rparr>
      = (out', Some (KeyError filled_vars_float))"
    by (simp add: a1)
  from ak a0 a1 ar' al' ah have A: "\<exists>df0 out'.
      beam_keys second_beam_bare_source = [''BEAM0000'', ''BEAM0001'']
      \<and> beam_table sample_breakdown second_beam_bare_source ''BEAM0000'' = Inr df0
      \<and> beam_table sample_breakdown second_beam_bare_source ''BEAM0001''
          = Inl (KeyError filled_vars_float)
      \<and> write_csv sample_breakdown second_beam_bare_source \<lparr>csv_lines = [], printed = []\<rparr>
          = (out', Some (KeyError filled_vars_float))
      \<and> csv_lines out' = Header (column_names df0) # data_lines df0
      \<and> filter is_header (csv_lines out') = [Header (column_names df0)]"
    by (intro exI [where x = df0] exI [where x = out'] conjI)
  \<comment> \<open>both beams are written\<close>
  obtain e0 where b0: "beam_table sample_breakdown two_beam_source ''BEAM0000'' = Inr e0"
    using two_beam_source_first by (rule complete_beam_table)
  obtain e1 where b1: "beam_table sample_breakdown two_beam_source ''BEAM0001'' = Inr e1"
    using two_beam_source_second by (rule complete_beam_table)
  note bk = beam_keys_two_beam_source
  have bp: "beam_keys two_beam_source = [''BEAM0000'', ''BEAM0001'']
      \<and> beam_table sample_breakdown two_beam_source ''BEAM0000'' = Inr e0"
    using bk b0 by (intro conjI)
  have "\<exists>out' dfs.
      write_csv sample_breakdown two_beam_source \<lparr>csv_lines = [], printed = []\<rparr> =
        (out', case dropWhile (\<lambda>t. \<not> isl t)
            (map (beam_table sample_breakdown two_beam_source) [''BEAM0001'']) of
          [] \<Rightarrow> None | t # _ \<Rightarrow> Some (projl t))
      \<and> takeWhile (\<lambda>t. \<not> isl t)
          (map (beam_table sample_breakdown two_beam_source) [''BEAM0001'']) = map Inr dfs
      \<and> csv_lines out' = Header (column_names e0) # concat (map data_lines (e0 # dfs))
      \<and> filter is_header (csv_lines out') = [Header (column_names e0)]"
    by (rule t [of two_beam_source "''BEAM0000''" "[''BEAM0001'']" e0,
          THEN conjunct1, THEN mp, OF bp])
  then obtain out2 dfs2 where
    br: "write_csv sample_breakdown two_beam_source \<lparr>csv_lines = [], printed = []\<rparr> =
        (out2, case dropWhile (\<lambda>t. \<not> isl t)
            (map (beam_table sample_breakdown two_beam_source) [''BEAM0001'']) of
          [] \<Rightarrow> None | t # _ \<Rightarrow> Some (projl t))"
    and bd: "takeWhile (\<lambda>t. \<not> isl t)
          (map (beam_table sample_breakdown two_beam_source) [''BEAM0001'']) = map Inr dfs2"
    and bl: "csv_lines out2 = Header (column_names e0) # concat (map data_lines (e0 # dfs2))"
    and bh: "filter is_header (csv_lines out2) = [Header (column_names e0)]"
    by (elim exE conjE)
  from bd have "map Inr dfs2 = [Inr e1 :: error + dataframe]" by (simp add: b1)
  then have "dfs2 = [e1]" by (cases dfs2) auto
  with bl have bl': "csv_lines out2 = Header (column_names e0) # data_lines e0 @ data_lines e1"
    by simp
  from br have br': "write_csv sample_breakdown two_beam_source \<lparr>csv_lines = [], printed = []\<rparr>
      = (out2, None)"
    by (simp add: b1)
  from bk b0 b1 br' bl' bh have B: "\<exists>df0 df1 out'.
      beam_keys two_beam_source = [''BEAM0000'', ''BEAM0001'']
      \<and> beam_table sample_breakdown two_beam_source ''BEAM0000'' = Inr df0
      \<and> beam_table sample_breakdown two_beam_source ''BEAM0001'' = Inr df1
      \<and> write_csv sample_breakdown two_beam_source \<lparr>csv_lines = [], printed = []\<rparr> = (out', None)
      \<and> csv_lines out' = Header (column_names df0) # data_lines df0 @ data_lines df1
      \<and> filter is_header (csv_lines out') = [Header (column_names df0)]"
    by (intro exI [where x = e0] exI [where x = e1] exI [where x = out2] conjI)
  \<comment> \<open>no beam\<close>
  have C: "write_csv sample_breakdown no_beam_source \<lparr>csv_lines = [], printed = []\<rparr>
        = (\<lparr>csv_lines = [], printed = []\<rparr>, None)"
    by (rule t [of no_beam_source "''BEAM0000''" "[]" e0,
          THEN conjunct2, THEN conjunct1, THEN mp, OF beam_keys_no_beam_source])
  \<comment> \<open>the first beam raises\<close>
  have d0: "beam_table sample_breakdown bare_beam_source ''BEAM0000'' = Inl (KeyError filled_vars_float)"
    using bare_beam_source_dataset by (rule beam_table_no_dataset)
  have dp: "beam_keys bare_beam_source = [''BEAM0000'']
      \<and> beam_table sample_breakdown bare_beam_source ''BEAM0000'' = Inl (KeyError filled_vars_float)"
    using beam_keys_bare_beam_source d0 by (intro conjI)
  have "\<exists>out'. write_csv sample_breakdown bare_beam_source \<lparr>csv_lines = [], printed = []\<rparr>
          = (out', Some (KeyError filled_vars_float))
      \<and> csv_lines out' = []"
    by (rule t [of bare_beam_source "''BEAM0000''" "[]" e0 "KeyError filled_vars_float",
          THEN conjunct2, THEN conjunct2, THEN mp, OF dp])
  then obtain out3 where
    dr: "write_csv sample_breakdown bare_beam_source \<lparr>csv_lines = [], printed = []\<rparr>
          = (out3, Some (KeyError filled_vars_float))"
    and dl: "csv_lines out3 = []"
    by (elim exE conjE)
  from beam_keys_bare_beam_source d0 dr dl have D: "\<exists>out'.
      beam_keys bare_beam_source = [''BEAM0000'']
      \<and> beam_table sample_breakdown bare_beam_source ''BEAM0000'' = Inl (KeyError filled_vars_float)
      \<and> write_csv sample_breakdown bare_beam_source \<lparr>csv_lines = [], printed = []\<rparr>
          = (out', Some (KeyError filled_vars_float))
      \<and> csv_lines out' = []"
    by (intro exI [where x = out3] conjI)
  from A B beam_keys_no_beam_source C D show ?thesis by (intro conjI)
qed

text \<open>
  C5 as stated fails: \<open>no_beam_source\<close> has no beam group and its output holds no header
  row; \<open>bare_beam_source\<close> has a beam group without datasets and the run ends with
  \<^verbatim>\<open>KeyError\<close> before any header is written.
\<close>

theorem write_csv_no_header_counterexample:
  "write_csv sample_breakdown no_beam_source \<lparr>csv_lines = [], printed = []\<rparr>
      = (\<lparr>csv_lines = [], printed = []\<rparr>, None)
   \<and> length (filter is_header
        (csv_lines (fst (write_csv sample_breakdown no_beam_source \<lparr>csv_lines = [], printed = []\<rparr>))))
      = 0
   \<and> write_csv sample_breakdown bare_beam_source \<lparr>csv_lines = [], printed = []\<rparr>
      = (\<lparr>csv_lines = [], printed = [[CHR 0x09, CHR '' ''] @ ''BEAM0000'']\<rparr>,
         Some (KeyError filled_vars_float))"
proof -
  have a: "write_csv sample_breakdown no_beam_source \<lparr>csv_lines = [], printed = []\<rparr>
      = (\<lparr>csv_lines = [], printed = []\<rparr>, None)"
    using beam_keys_no_beam_source by (rule write_csv_no_beam)
  have b: "length (filter is_header
        (csv_lines (fst (write_csv sample_breakdown no_beam_source \<lparr>csv_lines = [], printed = []\<rparr>))))
      = 0"
    unfolding a by simp
  have e: "beam_table sample_breakdown bare_beam_source ''BEAM0000'' = Inl (KeyError filled_vars_float)"
    using bare_beam_source_dataset by (rule beam_table_no_dataset)
  have k: "hdf_keys bare_beam_source = [''BEAM0000'']" by (simp add: bare_beam_source_def)
  have s: "startswith ''BEAM0000'' ''BEAM''" by (simp add: startswith_def)
  have c: "write_csv sample_breakdown bare_beam_source \<lparr>csv_lines = [], printed = []\<rparr>
      = (\<lparr>csv_lines = [], printed = [[CHR 0x09, CHR '' ''] @ ''BEAM0000'']\<rparr>,
         Some (KeyError filled_vars_float))"
    unfolding write_csv_def k using write_csv_loop_first_error [OF s e] by simp
  from a b c show ?thesis by (intro conjI)
qed

end
